theory Spec2Isabelle
  imports Main "HOL-Library.AList"
begin

section \<open>Python values\<close>

text \<open>
  The values that flow through \<^verbatim>\<open>base/managers.py\<close> and
  \<^verbatim>\<open>contrib/base/handlers.py\<close>: \<^verbatim>\<open>None\<close>, integers, text, lists,
  BSON object identifiers and dictionaries. Text is a \<open>string\<close> whose characters are the
  code points below 256; text with a code point of 256 or more is outside the model.
  A dictionary is an association list in insertion order with distinct keys, as a Python
  \<^verbatim>\<open>dict\<close> is.
\<close>

datatype objectid = ObjectId (binary: "nat list")

datatype pyval =
    VNone
  | VInt int
  | VStr string
  | VList "pyval list"
  | VOid objectid
  | VDict "(string \<times> pyval) list"

type_synonym pydict = "(string \<times> pyval) list"

datatype error =
    IndexError
  | TypeError
  | ValueError
  | UnicodeDecodeError
  | InvalidId
  | DuplicateKeyError
  | EmptyPage

text \<open>Truth value testing, as \<^verbatim>\<open>if x:\<close> and \<^verbatim>\<open>not x\<close> do it.\<close>

fun truthy :: "pyval \<Rightarrow> bool" where
  "truthy VNone = False"
| "truthy (VInt n) = (n \<noteq> 0)"
| "truthy (VStr s) = (s \<noteq> [])"
| "truthy (VList xs) = (xs \<noteq> [])"
| "truthy (VOid oid) = True"
| "truthy (VDict d) = (d \<noteq> [])"

text \<open>\<^verbatim>\<open>d.get(k)\<close>, \<^verbatim>\<open>d[k] = v\<close> and \<^verbatim>\<open>d.pop(k, default)\<close>.\<close>

definition dict_get :: "pydict \<Rightarrow> string \<Rightarrow> pyval" where
  "dict_get d k = (case map_of d k of None \<Rightarrow> VNone | Some v \<Rightarrow> v)"

definition dict_set :: "pydict \<Rightarrow> string \<Rightarrow> pyval \<Rightarrow> pydict" where
  "dict_set d k v = AList.update k v d"

definition dict_pop :: "pydict \<Rightarrow> string \<Rightarrow> pyval \<Rightarrow> pyval \<times> pydict" where
  "dict_pop d k dflt =
     (case map_of d k of
        None \<Rightarrow> (dflt, d)
      | Some v \<Rightarrow> (v, AList.delete k d))"

section \<open>Text operations of the query-string parser\<close>

text \<open>\<^verbatim>\<open>s.split(',')\<close>: never empty, the empty text gives one empty piece.\<close>

fun split_comma :: "string \<Rightarrow> string list" where
  "split_comma [] = [[]]"
| "split_comma (c # cs) =
     (if c = CHR '','' then [] # split_comma cs
      else (case split_comma cs of
              [] \<Rightarrow> [[c]]
            | w # ws \<Rightarrow> (c # w) # ws))"

text \<open>\<^verbatim>\<open>key.replace('__', '.')\<close>: occurrences are replaced left to right, without overlap.\<close>

fun replace_dunder :: "string \<Rightarrow> string" where
  "replace_dunder (c # d # cs) =
     (if c = CHR ''_'' \<and> d = CHR ''_'' then CHR ''.'' # replace_dunder cs
      else c # replace_dunder (d # cs))"
| "replace_dunder cs = cs"

text \<open>
  \<^verbatim>\<open>int(s)\<close> on text of code points below 256. The whitespace around the literal is
  dropped: the six ASCII whitespace characters of C and, of the other code points, U+0085
  and U+00A0 (the separators U+001C to U+001F are not dropped). One sign is allowed, then
  decimal digits follow, where single underscores may stand between digits. A literal of
  more than 4300 digits is refused (the interpreter's default limit). Anything else raises
  \<^verbatim>\<open>ValueError\<close>, which is \<open>None\<close> here.
\<close>

definition is_space :: "char \<Rightarrow> bool" where
  "is_space c = (c \<in> set [CHR 0x09, CHR 0x0A, CHR 0x0B, CHR 0x0C, CHR 0x0D, CHR 0x20])"

definition digit_value :: "char \<Rightarrow> nat option" where
  "digit_value c =
     map_of [(CHR ''0'', 0), (CHR ''1'', 1), (CHR ''2'', 2), (CHR ''3'', 3), (CHR ''4'', 4),
             (CHR ''5'', 5), (CHR ''6'', 6), (CHR ''7'', 7), (CHR ''8'', 8), (CHR ''9'', 9)] c"

fun digits_value :: "bool \<Rightarrow> nat \<Rightarrow> string \<Rightarrow> nat option" where
  "digits_value after_digit acc [] = (if after_digit then Some acc else None)"
| "digits_value after_digit acc (c # cs) =
     (case digit_value c of
        Some d \<Rightarrow> digits_value True (10 * acc + d) cs
      | None \<Rightarrow>
          if c = CHR ''_'' \<and> after_digit then digits_value False acc cs else None)"

definition is_int_space :: "char \<Rightarrow> bool" where
  "is_int_space c = (is_space c \<or> c = CHR 0x85 \<or> c = CHR 0xA0)"

definition strip :: "string \<Rightarrow> string" where
  "strip s = rev (dropWhile is_int_space (rev (dropWhile is_int_space s)))"

definition max_str_digits :: nat where
  "max_str_digits = 4300"

definition py_int :: "string \<Rightarrow> int option" where
  "py_int s =
     (case strip s of
        [] \<Rightarrow> None
      | c # cs \<Rightarrow>
          (let body = (if c = CHR ''-'' \<or> c = CHR ''+'' then cs else c # cs) in
           if max_str_digits < length (filter (\<lambda>d. digit_value d \<noteq> None) body) then None
           else map_option (\<lambda>n. if c = CHR ''-'' then - int n else int n)
                  (digits_value False 0 body)))"

section \<open>Object identifiers\<close>

text \<open>
  \<^verbatim>\<open>bytes.fromhex\<close>: pairs of hexadecimal digits, ASCII whitespace is skipped in front of
  a pair. \<open>None\<close> is its \<^verbatim>\<open>ValueError\<close>.
\<close>

definition hex_value :: "char \<Rightarrow> nat option" where
  "hex_value c =
     map_of [(CHR ''0'', 0), (CHR ''1'', 1), (CHR ''2'', 2), (CHR ''3'', 3), (CHR ''4'', 4),
             (CHR ''5'', 5), (CHR ''6'', 6), (CHR ''7'', 7), (CHR ''8'', 8), (CHR ''9'', 9),
             (CHR ''a'', 10), (CHR ''b'', 11), (CHR ''c'', 12), (CHR ''d'', 13),
             (CHR ''e'', 14), (CHR ''f'', 15),
             (CHR ''A'', 10), (CHR ''B'', 11), (CHR ''C'', 12), (CHR ''D'', 13),
             (CHR ''E'', 14), (CHR ''F'', 15)] c"

fun fromhex :: "string \<Rightarrow> nat list option" where
  "fromhex [] = Some []"
| "fromhex [c] = (if is_space c then Some [] else None)"
| "fromhex (c # d # cs) =
     (if is_space c then fromhex (d # cs)
      else (case (hex_value c, hex_value d) of
              (Some hi, Some lo) \<Rightarrow> map_option ((#) (16 * hi + lo)) (fromhex cs)
            | _ \<Rightarrow> None))"

text \<open>
  \<^verbatim>\<open>ObjectId(oid)\<close> of the bson package for the arguments the manager passes: an
  identifier is copied, a text of 24 characters that \<^verbatim>\<open>bytes.fromhex\<close> accepts is
  parsed, any other text raises \<^verbatim>\<open>InvalidId\<close>, any other type raises
  \<^verbatim>\<open>TypeError\<close>. \<^verbatim>\<open>ObjectId(None)\<close> draws a fresh identifier; the manager
  never makes that call (its guard excludes \<^verbatim>\<open>None\<close>), so the function has no
  equation for it.
\<close>

fun object_id :: "pyval \<Rightarrow> error + objectid" where
  "object_id (VOid oid) = Inr oid"
| "object_id (VStr s) =
     (if length s = 24 then
        (case fromhex s of
           Some bs \<Rightarrow> Inr (ObjectId bs)
         | None \<Rightarrow> Inl InvalidId)
      else Inl InvalidId)"
| "object_id (VInt n) = Inl TypeError"
| "object_id (VList xs) = Inl TypeError"
| "object_id (VDict d) = Inl TypeError"

text \<open>\<^verbatim>\<open>str(oid)\<close>: two lower-case hexadecimal digits for every byte.\<close>

definition hex_digit :: "nat \<Rightarrow> char" where
  "hex_digit n = ''0123456789abcdef'' ! (n mod 16)"

definition oid_str :: "objectid \<Rightarrow> string" where
  "oid_str oid = concat (map (\<lambda>b. [hex_digit (b div 16), hex_digit b]) (binary oid))"

text \<open>
  \<^verbatim>\<open>json.loads(json_util.dumps(data))\<close> on these values: an identifier becomes the
  document \<^verbatim>\<open>{"$oid": "<hex>"}\<close>, containers are walked, the rest is unchanged.
\<close>

fun parse_json :: "pyval \<Rightarrow> pyval" where
  "parse_json (VOid oid) = VDict [(''$oid'', VStr (oid_str oid))]"
| "parse_json (VList xs) = VList (map parse_json xs)"
| "parse_json (VDict kvs) = VDict (map (\<lambda>kv. (fst kv, parse_json (snd kv))) kvs)"
| "parse_json v = v"


section \<open>The document store\<close>

text \<open>
  A collection is the list of its documents in insertion order. What MongoDB itself decides
  is a parameter of the model: which documents a filter matches, what a projection leaves of
  a document, how two field values compare in a sort, and whether an insertion violates a
  unique index. Server and connection failures are outside the model.
\<close>

record mongo =
  matches :: "pydict \<Rightarrow> pydict \<Rightarrow> bool"
  project :: "pydict option \<Rightarrow> pydict \<Rightarrow> pydict"
  bson_le :: "pyval \<Rightarrow> pyval \<Rightarrow> bool"
  violates :: "pydict list \<Rightarrow> pydict \<Rightarrow> bool"

definition count_documents :: "mongo \<Rightarrow> pydict list \<Rightarrow> pydict \<Rightarrow> nat" where
  "count_documents eng coll query_filter = length (filter (matches eng query_filter) coll)"

text \<open>
  A cursor collects the options of a query; \<^verbatim>\<open>to_list(None)\<close> runs it. The server
  sorts first, then skips, then limits; a limit of 0 is no limit and a negative limit counts
  by its absolute value.
\<close>

record cursor =
  spec :: pydict
  projection :: "pydict option"
  skipped :: nat
  limited :: int
  ordering :: "(string \<times> int) list"

definition collection_find :: "pydict \<Rightarrow> pydict option \<Rightarrow> cursor" where
  "collection_find query_filter proj =
     \<lparr>spec = query_filter, projection = proj, skipped = 0, limited = 0, ordering = []\<rparr>"

text \<open>
  \<^verbatim>\<open>cursor.skip(n)\<close> raises \<^verbatim>\<open>TypeError\<close> unless \<open>n\<close> is an integer and
  \<^verbatim>\<open>ValueError\<close> when it is negative; \<^verbatim>\<open>cursor.limit(n)\<close> raises
  \<^verbatim>\<open>TypeError\<close> unless \<open>n\<close> is an integer.
\<close>

definition cursor_skip :: "pyval \<Rightarrow> cursor \<Rightarrow> error + cursor" where
  "cursor_skip n cur =
     (case n of
        VInt i \<Rightarrow> if i < 0 then Inl ValueError else Inr (cur\<lparr>skipped := nat i\<rparr>)
      | _ \<Rightarrow> Inl TypeError)"

definition cursor_limit :: "pyval \<Rightarrow> cursor \<Rightarrow> error + cursor" where
  "cursor_limit n cur =
     (case n of
        VInt i \<Rightarrow> Inr (cur\<lparr>limited := i\<rparr>)
      | _ \<Rightarrow> Inl TypeError)"

definition cursor_sort :: "(string \<times> int) list \<Rightarrow> cursor \<Rightarrow> cursor" where
  "cursor_sort keys cur = cur\<lparr>ordering := keys\<rparr>"

fun insert_by :: "('a \<Rightarrow> 'a \<Rightarrow> bool) \<Rightarrow> 'a \<Rightarrow> 'a list \<Rightarrow> 'a list" where
  "insert_by le x [] = [x]"
| "insert_by le x (y # ys) = (if le x y then x # y # ys else y # insert_by le x ys)"

definition sort_by :: "('a \<Rightarrow> 'a \<Rightarrow> bool) \<Rightarrow> 'a list \<Rightarrow> 'a list" where
  "sort_by le xs = foldr (insert_by le) xs []"

definition key_le :: "mongo \<Rightarrow> string \<times> int \<Rightarrow> pydict \<Rightarrow> pydict \<Rightarrow> bool" where
  "key_le eng key a b =
     (if snd key < 0 then bson_le eng (dict_get b (fst key)) (dict_get a (fst key))
      else bson_le eng (dict_get a (fst key)) (dict_get b (fst key)))"

text \<open>The manager sorts by one key; later keys of a longer list would only break ties.\<close>

fun apply_sort :: "mongo \<Rightarrow> (string \<times> int) list \<Rightarrow> pydict list \<Rightarrow> pydict list" where
  "apply_sort eng [] docs = docs"
| "apply_sort eng (key # keys) docs = sort_by (key_le eng key) (apply_sort eng keys docs)"

definition apply_limit :: "int \<Rightarrow> 'a list \<Rightarrow> 'a list" where
  "apply_limit n xs = (if n = 0 then xs else take (nat \<bar>n\<bar>) xs)"

definition to_list :: "mongo \<Rightarrow> pydict list \<Rightarrow> cursor \<Rightarrow> pydict list" where
  "to_list eng coll cur =
     map (project eng (projection cur))
       (apply_limit (limited cur)
          (drop (skipped cur)
             (apply_sort eng (ordering cur) (filter (matches eng (spec cur)) coll))))"

definition find_one :: "mongo \<Rightarrow> pydict list \<Rightarrow> pydict \<Rightarrow> pydict option \<Rightarrow> pyval" where
  "find_one eng coll query_filter proj =
     (case filter (matches eng query_filter) coll of
        [] \<Rightarrow> VNone
      | d # ds \<Rightarrow> VDict (project eng proj d))"



text \<open>\<^verbatim>\<open>delete_one(filter)\<close> removes the first matching document, if there is one.\<close>

record delete_result =
  deleted_count :: nat

fun remove_first :: "('a \<Rightarrow> bool) \<Rightarrow> 'a list \<Rightarrow> 'a list" where
  "remove_first P [] = []"
| "remove_first P (x # xs) = (if P x then xs else x # remove_first P xs)"

definition delete_one :: "mongo \<Rightarrow> pydict list \<Rightarrow> pydict \<Rightarrow> pydict list \<times> delete_result" where
  "delete_one eng coll query_filter =
     (remove_first (matches eng query_filter) coll,
      \<lparr>deleted_count = (if list_ex (matches eng query_filter) coll then 1 else 0)\<rparr>)"

text \<open>
  The two update calls of the driver, with the filter and the update document they are
  given.
\<close>

datatype driver_call =
    UpdateOne pydict pydict
  | UpdateMany pydict pydict

section \<open>The manager (\<^verbatim>\<open>MotorModelManager\<close>)\<close>

text \<open>
  The filter is a dictionary object that the caller and the manager share, so the manager's
  operations work on a store of dictionary objects and take the reference of the filter.
  Each returns the store after the call, also when it raises.
\<close>

type_synonym ref = nat
type_synonym heap = "ref \<Rightarrow> pydict"

text \<open>The store of a caller that holds one dictionary, at reference 0.\<close>

definition one_filter :: "pydict \<Rightarrow> heap" where
  "one_filter d = (\<lambda>r. []) (0 := d)"

record manager =
  skip :: pyval
  limit :: pyval

record queryset =
  qvalue :: pyval
  total :: nat


definition convert_id_field :: "heap \<Rightarrow> ref \<Rightarrow> heap \<times> (error + ref)" where
  "convert_id_field h query_filter =
     (let has_id_field = dict_get (h query_filter) ''_id'' in
      if truthy has_id_field then
        (case object_id has_id_field of
           Inl e \<Rightarrow> (h, Inl e)
         | Inr oid \<Rightarrow>
             (h(query_filter := dict_set (h query_filter) ''_id'' (VOid oid)), Inr query_filter))
      else (h, Inr query_filter))"

definition parse_query_filter :: "heap \<Rightarrow> ref \<Rightarrow> heap \<times> (error + ref)" where
  "parse_query_filter h query_filter = convert_id_field h query_filter"

definition parse_remove_fields :: "string list \<Rightarrow> pydict option" where
  "parse_remove_fields names =
     (if names = [] then None
      else Some (foldl (\<lambda>d field. dict_set d field (VInt 0)) [] names))"

definition manager_find ::
  "mongo \<Rightarrow> manager \<Rightarrow> pydict list \<Rightarrow> heap \<Rightarrow> ref \<Rightarrow> bool \<Rightarrow> (string \<times> int) option \<Rightarrow>
     string list \<Rightarrow> pyval \<Rightarrow> heap \<times> (error + queryset)"
where
  "manager_find eng self coll h query_filter many sort_arg remove_fields limit_arg =
     (case parse_query_filter h query_filter of
        (h1, Inl e) \<Rightarrow> (h1, Inl e)
      | (h1, Inr qf) \<Rightarrow>
          (let fields_to_remove = parse_remove_fields remove_fields;
               count = count_documents eng coll (h1 qf)
           in if many then
                (let c0 = collection_find (h1 qf) fields_to_remove in
                 case (if truthy (skip self) then cursor_skip (skip self) c0 else Inr c0) of
                   Inl e \<Rightarrow> (h1, Inl e)
                 | Inr c1 \<Rightarrow>
                 (case (if truthy limit_arg then cursor_limit limit_arg c1 else Inr c1) of
                   Inl e \<Rightarrow> (h1, Inl e)
                 | Inr c2 \<Rightarrow>
                 (case (if truthy (limit self) then cursor_limit (limit self) c2 else Inr c2) of
                   Inl e \<Rightarrow> (h1, Inl e)
                 | Inr c3 \<Rightarrow>
                   (let c4 = (case sort_arg of None \<Rightarrow> c3 | Some key \<Rightarrow> cursor_sort [key] c3);
                        results = VList (map VDict (to_list eng coll c4))
                    in (h1, Inr \<lparr>qvalue = parse_json results, total = count\<rparr>)))))
              else
                (let results = find_one eng coll (h1 qf) fields_to_remove
                 in (h1, Inr \<lparr>qvalue = parse_json results, total = count\<rparr>))))"


text \<open>
  \<^verbatim>\<open>update\<close> yields the driver calls it makes, in order; the last one is the call whose
  result it awaits and returns.
\<close>

definition manager_update :: "heap \<Rightarrow> ref \<Rightarrow> pydict \<Rightarrow> heap \<times> (error + driver_call list)" where
  "manager_update h query_filter data =
     (case convert_id_field h query_filter of
        (h1, Inl e) \<Rightarrow> (h1, Inl e)
      | (h1, Inr qf) \<Rightarrow>
          (let data = [(''$set'', VDict data)];
               calls = [UpdateOne (h1 qf) data];
               calls = (if length data > 1 then calls @ [UpdateMany (h1 qf) data] else calls)
           in (h1, Inr calls)))"

definition manager_delete ::
  "mongo \<Rightarrow> pydict list \<Rightarrow> heap \<Rightarrow> ref \<Rightarrow> heap \<times> (error + pydict list \<times> delete_result)"
where
  "manager_delete eng coll h query_filter =
     (case convert_id_field h query_filter of
        (h1, Inl e) \<Rightarrow> (h1, Inl e)
      | (h1, Inr qf) \<Rightarrow> (h1, Inr (delete_one eng coll (h1 qf))))"

section \<open>The paginator\<close>

text \<open>
  Modelled from the spec: the page object of \<^verbatim>\<open>contrib/base/pagination.py\<close>, which
  is not among the sources. It holds the rows it was given and the counts.
\<close>

record page_obj =
  object_list :: "pyval list"
  number :: int
  per_page :: int
  total_count :: int

text \<open>
  Modelled from the spec: the number of the last page, \<open>ceil(total / page_size)\<close>, for a
  positive page size.
\<close>

definition num_pages :: "int \<Rightarrow> int \<Rightarrow> int" where
  "num_pages ps tot = (tot + ps - 1) div ps"

text \<open>
  Modelled from the spec: \<^verbatim>\<open>Paginator(list, page_size, total).page(n)\<close>. Page numbers
  start at 1; page 0, a negative page and a page beyond the last one raise
  \<^verbatim>\<open>EmptyPage\<close>; the page returned holds the caller's list as it is. The spec says
  nothing about a page size that is not a positive integer, and neither does the model.
\<close>

fun paginator_page :: "pyval list \<Rightarrow> pyval \<Rightarrow> int \<Rightarrow> int \<Rightarrow> error + page_obj" where
  "paginator_page data (VInt ps) tot n =
     (if n < 1 then Inl EmptyPage
      else if 0 < ps then
        (if num_pages ps tot < n then Inl EmptyPage
         else Inr \<lparr>object_list = data, number = n, per_page = ps, total_count = tot\<rparr>)
      else undefined)"

text \<open>Modelled from the spec: \<^verbatim>\<open>has_next()\<close> is true iff \<open>page_number * page_size < total\<close>.\<close>

definition has_next :: "page_obj \<Rightarrow> bool" where
  "has_next p = (number p * per_page p < total_count p)"

text \<open>Modelled from the spec: the page after this one.\<close>

definition next_page_number :: "page_obj \<Rightarrow> int" where
  "next_page_number p = number p + 1"

text \<open>
  Modelled from the spec: \<^verbatim>\<open>previous_page_number()\<close> is defined only when the page
  number exceeds 1.
\<close>

definition previous_page_number :: "page_obj \<Rightarrow> error + int" where
  "previous_page_number p = (if 1 < number p then Inr (number p - 1) else Inl EmptyPage)"

text \<open>
  What the handler asks of its \<^verbatim>\<open>pagination_class\<close>: the page for a list, a page
  size, a total and a page number, and of a page whether there is a next one, the next
  number and the previous number.
\<close>

record paginator =
  page_at :: "pyval list \<Rightarrow> pyval \<Rightarrow> int \<Rightarrow> int \<Rightarrow> error + page_obj"
  has_next_of :: "page_obj \<Rightarrow> bool"
  next_page_number_of :: "page_obj \<Rightarrow> int"
  previous_page_number_of :: "page_obj \<Rightarrow> error + int"

text \<open>
  Modelled from the spec: the \<^verbatim>\<open>Paginator\<close> class of
  \<^verbatim>\<open>contrib/base/pagination.py\<close>, the default pagination class of the handlers.
\<close>

definition spec_paginator :: paginator where
  "spec_paginator =
     \<lparr>page_at = paginator_page, has_next_of = has_next,
      next_page_number_of = next_page_number,
      previous_page_number_of = previous_page_number\<rparr>"

section \<open>The request handlers (\<^verbatim>\<open>MongoAPIMixin\<close>, \<^verbatim>\<open>ModelAPIView\<close>)\<close>

text \<open>
  A query argument arrives as bytes; the handler decodes it as UTF-8. The bytes are
  represented by what decoding makes of them: a text, or a \<^verbatim>\<open>UnicodeDecodeError\<close>.
\<close>

datatype arg_bytes = Utf8 string | NotUtf8

record request =
  uri :: string
  query_arguments :: "(string \<times> arg_bytes list) list"

record response =
  status :: nat
  body :: pyval

record handler =
  query_filter :: pydict
  page :: pyval
  page_size :: pyval
  model_manager :: manager

text \<open>
  The pluggable checks: a permission class and an authentication class answer for a request
  and the handler, and carry the message of their refusal.
\<close>

record permission =
  has_permission :: "request \<Rightarrow> handler \<Rightarrow> bool"
  message :: pyval

record authenticator =
  authenticate :: "request \<Rightarrow> handler \<Rightarrow> bool"
  unauthorized_message :: pyval

text \<open>
  The class attributes of a view: the default page size (20 in \<^verbatim>\<open>MongoAPIMixin\<close>),
  the pagination class, the authentication class, the permission classes and the fields of
  the model's public role.
\<close>

record view =
  page_size_attr :: pyval
  pagination_class :: paginator
  authentication_class :: authenticator
  permissions_classes :: "permission list"
  public_fields :: "string list"

text \<open>
  How a stage ends: with an exception that nothing catches, with the response that
  \<^verbatim>\<open>json_response\<close> wrote before it raised \<^verbatim>\<open>Finish\<close>, or normally.
\<close>

datatype 'a outcome = Raised error | Finished response | Continue 'a

text \<open>The calls to the pluggable checks, in the order they are made.\<close>

datatype event = HasPermission nat | Authenticate

definition decode :: "arg_bytes \<Rightarrow> error + string" where
  "decode b = (case b of Utf8 s \<Rightarrow> Inr s | NotUtf8 \<Rightarrow> Inl UnicodeDecodeError)"

text \<open>\<^verbatim>\<open>[int(arg) for arg in parts]\<close>; \<open>None\<close> when one of the calls raises.\<close>

fun int_all :: "string list \<Rightarrow> int list option" where
  "int_all [] = Some []"
| "int_all (arg # args) =
     (case py_int arg of
        None \<Rightarrow> None
      | Some n \<Rightarrow> map_option ((#) n) (int_all args))"

fun extract_loop :: "(string \<times> arg_bytes list) list \<Rightarrow> pydict \<Rightarrow> error + pydict" where
  "extract_loop [] query_args = Inr query_args"
| "extract_loop ((key, list_data) # rest) query_args =
     (if list_data = [] then Inl IndexError
      else
        (case decode (last list_data) of
           Inl e \<Rightarrow> Inl e
         | Inr query_arg \<Rightarrow>
             (let splited_query_arg = split_comma query_arg;
                  key = replace_dunder key
              in case int_all splited_query_arg of
                   Some ints \<Rightarrow>
                     extract_loop rest
                       (dict_set query_args key
                          (case ints of [n] \<Rightarrow> VInt n | _ \<Rightarrow> VList (map VInt ints)))
                 | None \<Rightarrow>
                     extract_loop rest
                       (dict_set query_args key
                          (case splited_query_arg of
                             [arg] \<Rightarrow> VStr arg
                           | _ \<Rightarrow> VList (map VStr splited_query_arg))))))"

definition extract_query_args :: "request \<Rightarrow> error + pydict" where
  "extract_query_args req =
     (if query_arguments req = [] then Inr []
      else extract_loop (query_arguments req) [])"

fun check_permissions ::
  "permission list \<Rightarrow> request \<Rightarrow> handler \<Rightarrow> nat \<Rightarrow> event list \<times> response option"
where
  "check_permissions [] req self i = ([], None)"
| "check_permissions (permission_class # rest) req self i =
     (if has_permission permission_class req self then
        (case check_permissions rest req self (Suc i) of
           (events, r) \<Rightarrow> (HasPermission i # events, r))
      else ([HasPermission i], Some \<lparr>status = 403, body = message permission_class\<rparr>))"

definition check_authentication ::
  "authenticator \<Rightarrow> request \<Rightarrow> handler \<Rightarrow> event list \<times> response option"
where
  "check_authentication auth req self =
     ([Authenticate],
      if authenticate auth req self then None
      else Some \<lparr>status = 401, body = unauthorized_message auth\<rparr>)"

text \<open>
  The first lines of \<^verbatim>\<open>prepare\<close>: \<^verbatim>\<open>page\<close> and \<^verbatim>\<open>page_size\<close> are
  popped from the parsed arguments, kept on the handler and handed to the manager as its
  skip and limit.
\<close>

definition set_pagination :: "view \<Rightarrow> pydict \<Rightarrow> handler" where
  "set_pagination v args =
     (let (pg, args1) = dict_pop args ''page'' (VInt 0);
          (psz, args2) = dict_pop args1 ''page_size'' (page_size_attr v)
      in \<lparr>query_filter = args2, page = pg, page_size = psz,
          model_manager = \<lparr>skip = pg, limit = psz\<rparr>\<rparr>)"

definition prepare :: "view \<Rightarrow> request \<Rightarrow> event list \<times> handler outcome" where
  "prepare v req =
     (case extract_query_args req of
        Inl e \<Rightarrow> ([], Raised e)
      | Inr args \<Rightarrow>
          (let self = set_pagination v args
           in case check_permissions (permissions_classes v) req self 0 of
                (events, Some resp) \<Rightarrow> (events, Finished resp)
              | (events, None) \<Rightarrow>
                  (case check_authentication (authentication_class v) req self of
                     (events', Some resp) \<Rightarrow> (events @ events', Finished resp)
                   | (events', None) \<Rightarrow> (events @ events', Continue self))))"

text \<open>
  The links of a paginated response are the request URI with its \<^verbatim>\<open>page\<close> parameter
  rewritten (\<^verbatim>\<open>urlparse\<close>, \<^verbatim>\<open>parse_qs\<close>, \<^verbatim>\<open>urlencode\<close>); that rewriting is
  the parameter \<open>page_link\<close>.
\<close>

definition paginated_response :: "nat \<Rightarrow> string option \<Rightarrow> string option \<Rightarrow> pyval list \<Rightarrow> pydict" where
  "paginated_response cnt next_page prev_page results =
     [(''count'', VInt (int cnt)),
      (''next'', case next_page of None \<Rightarrow> VNone | Some s \<Rightarrow> VStr s),
      (''previous'', case prev_page of None \<Rightarrow> VNone | Some s \<Rightarrow> VStr s),
      (''results'', VList results)]"

definition paginate_response ::
  "(string \<Rightarrow> int \<Rightarrow> string) \<Rightarrow> view \<Rightarrow> request \<Rightarrow> handler \<Rightarrow> queryset \<Rightarrow> int \<Rightarrow>
     pyval \<Rightarrow> error + pydict"
where
  "paginate_response page_link v req self qs current_page page_size_arg =
     (let data = qvalue qs;
          cnt = total qs;
          psz = (if \<not> truthy page_size_arg then page_size self else page_size_arg);
          data = (case data of VList xs \<Rightarrow> xs | other \<Rightarrow> [other])
      in case page_at (pagination_class v) data psz (int cnt) current_page of
           Inl e \<Rightarrow>
             if e = EmptyPage \<or> e = ValueError then Inr (paginated_response cnt None None [])
             else Inl e
         | Inr paginated_data \<Rightarrow>
             (let next_page =
                    (if has_next_of (pagination_class v) paginated_data
                     then Some (page_link (uri req)
                                  (next_page_number_of (pagination_class v) paginated_data))
                     else None)
              in if 1 < current_page then
                   (case previous_page_number_of (pagination_class v) paginated_data of
                      Inl e \<Rightarrow>
                        if e = EmptyPage \<or> e = ValueError
                        then Inr (paginated_response cnt next_page None [])
                        else Inl e
                    | Inr prev_page_number \<Rightarrow>
                        Inr (paginated_response cnt next_page
                               (Some (page_link (uri req) prev_page_number))
                               (object_list paginated_data)))
                 else Inr (paginated_response cnt next_page None (object_list paginated_data))))"

text \<open>
  \<^verbatim>\<open>get_queryset\<close> hands the handler's own filter dictionary to the manager; the
  handler is returned with what the manager left in it.
\<close>

definition get_queryset ::
  "view \<Rightarrow> mongo \<Rightarrow> pydict list \<Rightarrow> handler \<Rightarrow> bool \<Rightarrow> handler \<times> (error + queryset)"
where
  "get_queryset v eng coll self many =
     (let fields_to_remove = public_fields v;
          h = one_filter (query_filter self)
      in case manager_find eng (model_manager self) coll h 0 many (Some (''_id'', - 1))
                fields_to_remove VNone of
           (h1, r) \<Rightarrow> (self\<lparr>query_filter := h1 0\<rparr>, r))"

definition view_list ::
  "(string \<Rightarrow> int \<Rightarrow> string) \<Rightarrow> view \<Rightarrow> mongo \<Rightarrow> pydict list \<Rightarrow> request \<Rightarrow> handler \<Rightarrow>
     error + response"
where
  "view_list page_link v eng coll req self =
     (case get_queryset v eng coll self True of
        (self1, Inl e) \<Rightarrow> Inl e
      | (self1, Inr qs) \<Rightarrow>
          (case paginate_response page_link v req self1 qs 1 VNone of
             Inl e \<Rightarrow> Inl e
           | Inr resp \<Rightarrow> Inr \<lparr>status = 200, body = VDict resp\<rparr>))"

text \<open>
  A \<^verbatim>\<open>DeleteResult\<close> of the driver defines neither \<^verbatim>\<open>__bool__\<close> nor
  \<^verbatim>\<open>__len__\<close>: every instance is true in a condition.
\<close>

definition delete_result_truthy :: "delete_result \<Rightarrow> bool" where
  "delete_result_truthy r = True"

definition not_removed_message :: pyval where
  "not_removed_message =
     VDict [(''error'',
       VList [VStr (''N'' @ [CHR 0xE3] @ ''o foi poss'' @ [CHR 0xED] @ ''vel remover o registro.'')])]"

definition view_delete ::
  "mongo \<Rightarrow> pydict list \<Rightarrow> string \<Rightarrow> pydict list \<times> (error + response)"
where
  "view_delete eng coll oid_arg =
     (let h = one_filter [(''_id'', VStr oid_arg)]
      in case manager_delete eng coll h 0 of
           (h1, Inl e) \<Rightarrow> (coll, Inl e)
         | (h1, Inr (coll', result)) \<Rightarrow>
             if \<not> delete_result_truthy result
             then (coll', Inr \<lparr>status = 400, body = not_removed_message\<rparr>)
             else (coll', Inr \<lparr>status = 200, body = VDict [(''_id'', VStr oid_arg)]\<rparr>))"

text \<open>
  The framework runs \<^verbatim>\<open>prepare\<close> and, unless that finished the request, the method of
  the HTTP verb: \<^verbatim>\<open>get\<close> without an identity in the URL is \<^verbatim>\<open>list\<close>,
  \<^verbatim>\<open>delete\<close> takes the identity of the URL.
\<close>

definition execute_get_list ::
  "(string \<Rightarrow> int \<Rightarrow> string) \<Rightarrow> view \<Rightarrow> mongo \<Rightarrow> pydict list \<Rightarrow> request \<Rightarrow>
     event list \<times> (error + response)"
where
  "execute_get_list page_link v eng coll req =
     (case prepare v req of
        (events, Raised e) \<Rightarrow> (events, Inl e)
      | (events, Finished resp) \<Rightarrow> (events, Inr resp)
      | (events, Continue self) \<Rightarrow> (events, view_list page_link v eng coll req self))"

definition execute_delete ::
  "view \<Rightarrow> mongo \<Rightarrow> pydict list \<Rightarrow> request \<Rightarrow> string \<Rightarrow>
     event list \<times> pydict list \<times> (error + response)"
where
  "execute_delete v eng coll req oid_arg =
     (case prepare v req of
        (events, Raised e) \<Rightarrow> (events, coll, Inl e)
      | (events, Finished resp) \<Rightarrow> (events, coll, Inr resp)
      | (events, Continue self) \<Rightarrow> (events, view_delete eng coll oid_arg))"

section \<open>Notions the statements use\<close>

text \<open>The filter as the driver receives it from the manager, for a caller's filter.\<close>

definition issued_filter :: "pydict \<Rightarrow> pydict" where
  "issued_filter qf = fst (convert_id_field (one_filter qf) 0) 0"

text \<open>
  What the manager's skip and limit mean to the cursor: a falsy skip passes over no
  document, an integer skip passes over that many documents; a falsy limit is no limit
  (written 0, as the driver writes it).
\<close>

definition documents_skipped :: "pyval \<Rightarrow> nat" where
  "documents_skipped sk = (case sk of VInt p \<Rightarrow> nat p | _ \<Rightarrow> 0)"

definition documents_limit :: "pyval \<Rightarrow> int" where
  "documents_limit lm = (case lm of VInt l \<Rightarrow> l | _ \<Rightarrow> 0)"

text \<open>
  The rows of a list answer when, of the documents matching \<open>qf\<close> in descending order of
  \<^verbatim>\<open>_id\<close>, the first \<open>k\<close> documents are passed over and the limit \<open>l\<close> is
  applied to the rest: \<open>k\<close> counts documents, not pages.
\<close>

definition rows_after_skip ::
  "view \<Rightarrow> mongo \<Rightarrow> pydict list \<Rightarrow> pydict \<Rightarrow> nat \<Rightarrow> int \<Rightarrow> pyval list"
where
  "rows_after_skip v eng coll qf k l =
     map (\<lambda>d. parse_json (VDict (project eng (parse_remove_fields (public_fields v)) d)))
       (apply_limit l (drop k
          (sort_by (key_le eng (''_id'', - 1)) (filter (matches eng qf) coll))))"

section \<open>The filter value as the specification words it\<close>

text \<open>
  The specification's rule for one query-string value, for comparison with
  \<^verbatim>\<open>extract_query_args\<close>: the value is split on commas into candidates; if every
  candidate parses as an integer the filter value is that integer (one candidate) or the list
  of integers, otherwise the original text (one candidate) or the list of texts.
\<close>

definition spec_filter_value :: "string \<Rightarrow> pyval" where
  "spec_filter_value v =
     (let candidates = split_comma v in
      if list_all (\<lambda>c. py_int c \<noteq> None) candidates then
        (case candidates of
           [c] \<Rightarrow> VInt (the (py_int c))
         | _ \<Rightarrow> VList (map (\<lambda>c. VInt (the (py_int c))) candidates))
      else
        (case candidates of
           [c] \<Rightarrow> VStr c
         | _ \<Rightarrow> VList (map VStr candidates)))"

text \<open>
  What the rule's words mean, said without the parser's functions. Splitting on commas is
  the inverse of joining with commas, into pieces free of commas.
\<close>

fun join_commas :: "string list \<Rightarrow> string" where
  "join_commas [] = []"
| "join_commas [p] = p"
| "join_commas (p # ps) = p @ CHR '','' # join_commas ps"

text \<open>
  A text parses as the integer \<open>n\<close> when it is, between whitespace, an optional sign and
  decimal digits in groups separated by single underscores, of at most 4300 digits, and
  \<open>n\<close> is the signed decimal value of the digits.
\<close>

definition int_whitespace :: "char set" where
  "int_whitespace =
     {CHR 0x09, CHR 0x0A, CHR 0x0B, CHR 0x0C, CHR 0x0D, CHR 0x20, CHR 0x85, CHR 0xA0}"

definition is_digit :: "char \<Rightarrow> bool" where
  "is_digit c = (c \<in> set ''0123456789'')"

definition digit_of :: "char \<Rightarrow> nat" where
  "digit_of c = of_char c - 48"

definition decimal_value :: "string \<Rightarrow> nat" where
  "decimal_value ds = foldl (\<lambda>a c. 10 * a + digit_of c) 0 (filter is_digit ds)"

definition grouped_digits :: "string \<Rightarrow> bool" where
  "grouped_digits ds =
     (ds \<noteq> [] \<and> list_all (\<lambda>c. is_digit c \<or> c = CHR ''_'') ds \<and>
      is_digit (hd ds) \<and> is_digit (last ds) \<and>
      list_all (\<lambda>(c, d). \<not> (c = CHR ''_'' \<and> d = CHR ''_'')) (zip ds (tl ds)))"

definition int_literal :: "string \<Rightarrow> int \<Rightarrow> bool" where
  "int_literal s n =
     (\<exists>a sgn ds b.
        s = a @ sgn @ ds @ b \<and> set a \<subseteq> int_whitespace \<and> set b \<subseteq> int_whitespace \<and>
        (sgn = [] \<or> sgn = ''+'' \<or> sgn = ''-'') \<and> grouped_digits ds \<and>
        length (filter is_digit ds) \<le> 4300 \<and>
        n = (if sgn = ''-'' then - int (decimal_value ds) else int (decimal_value ds)))"

text \<open>
  A double underscore becomes a dot, from left to right: a key without a double underscore
  is unchanged, and in a key the first double underscore becomes a dot and the rest of the
  key is treated likewise.
\<close>

definition has_dunder :: "string \<Rightarrow> bool" where
  "has_dunder k = (\<exists>a b. k = a @ ''__'' @ b)"

section \<open>A small installation for the examples\<close>

text \<open>
  An engine with the plain behaviour of the store on flat documents: a filter matches the
  documents that hold each of its fields with the same value, a projection drops the fields
  it names, integers and identifiers are ordered among themselves (identifiers by their
  bytes), and a second document with the \<^verbatim>\<open>_id\<close> of a stored one is refused.
\<close>

fun bytes_le :: "nat list \<Rightarrow> nat list \<Rightarrow> bool" where
  "bytes_le [] ys = True"
| "bytes_le (x # xs) [] = False"
| "bytes_le (x # xs) (y # ys) = (x < y \<or> (x = y \<and> bytes_le xs ys))"

definition example_mongo :: mongo where
  "example_mongo =
     \<lparr>matches = (\<lambda>f d. list_all (\<lambda>kv. map_of d (fst kv) = Some (snd kv)) f),
      project = (\<lambda>p d. case p of None \<Rightarrow> d | Some q \<Rightarrow> filter (\<lambda>kv. map_of q (fst kv) = None) d),
      bson_le = (\<lambda>a b. case (a, b) of
                          (VInt x, VInt y) \<Rightarrow> x \<le> y
                        | (VOid x, VOid y) \<Rightarrow> bytes_le (binary x) (binary y)
                        | _ \<Rightarrow> True),
      violates = (\<lambda>coll d. list_ex (\<lambda>c. map_of c ''_id'' = map_of d ''_id'') coll)\<rparr>"

text \<open>A view whose checks let every request pass, and one whose checks refuse every request.\<close>

definition open_view :: view where
  "open_view =
     \<lparr>page_size_attr = VInt 20,
      pagination_class = spec_paginator,
      authentication_class =
        \<lparr>authenticate = (\<lambda>req self. True), unauthorized_message = VStr ''unauthorized''\<rparr>,
      permissions_classes =
        [\<lparr>has_permission = (\<lambda>req self. True), message = VStr ''forbidden''\<rparr>],
      public_fields = []\<rparr>"

definition closed_view :: view where
  "closed_view =
     \<lparr>page_size_attr = VInt 20,
      pagination_class = spec_paginator,
      authentication_class =
        \<lparr>authenticate = (\<lambda>req self. False), unauthorized_message = VStr ''unauthorized''\<rparr>,
      permissions_classes =
        [\<lparr>has_permission = (\<lambda>req self. False), message = VStr ''forbidden''\<rparr>],
      public_fields = []\<rparr>"

text \<open>A view that lets every request pass its permission check and authenticates none.\<close>

definition members_view :: view where
  "members_view =
     \<lparr>page_size_attr = VInt 20,
      pagination_class = spec_paginator,
      authentication_class =
        \<lparr>authenticate = (\<lambda>req self. False), unauthorized_message = VStr ''unauthorized''\<rparr>,
      permissions_classes =
        [\<lparr>has_permission = (\<lambda>req self. True), message = VStr ''forbidden''\<rparr>],
      public_fields = []\<rparr>"

text \<open>Documents that hold an identifier only; the last byte of the identifier numbers them.\<close>

definition numbered :: "nat \<Rightarrow> pydict" where
  "numbered i = [(''_id'', VOid (ObjectId (replicate 11 0 @ [i])))]"

definition numbered_docs :: "nat \<Rightarrow> pydict list" where
  "numbered_docs n = map numbered [0..<n]"

text \<open>
  The page link as the handler computes it with the standard library, on text of code
  points below 256: \<^verbatim>\<open>urlparse(uri).query\<close> is the text between the first
  \<^verbatim>\<open>?\<close> and the first \<^verbatim>\<open>#\<close> (after leading control characters and
  spaces, and every tab, carriage return and line feed, are dropped);
  \<^verbatim>\<open>parse_qs\<close> splits it at \<^verbatim>\<open>&\<close>, leaves out the fields without
  \<^verbatim>\<open>=\<close> or with an empty value, turns \<^verbatim>\<open>+\<close> into a space, decodes the
  percent escapes as UTF-8 and collects the values of a name in the order of the first
  appearance of the names; the handler sets \<^verbatim>\<open>page\<close>;
  \<^verbatim>\<open>urlencode(..., doseq=True)\<close> writes every value as \<^verbatim>\<open>name=value\<close>,
  quoted with \<^verbatim>\<open>quote_plus\<close>, joined by \<^verbatim>\<open>&\<close>; the link is the text of
  the URI before its first \<^verbatim>\<open>?\<close>, a \<^verbatim>\<open>?\<close> and that query. Two cases are
  outside the model: escapes that do not denote text of code points below 256 (the
  function has no value for them), and a URI that \<^verbatim>\<open>urlparse\<close> refuses with
  \<^verbatim>\<open>ValueError\<close> (a malformed bracketed host after \<^verbatim>\<open>//\<close>).
\<close>

fun decimal :: "nat \<Rightarrow> string" where
  "decimal n = (if n < 10 then [hex_digit n] else decimal (n div 10) @ [hex_digit (n mod 10)])"

definition int_str :: "int \<Rightarrow> string" where
  "int_str n = (if n < 0 then CHR ''-'' # decimal (nat (- n)) else decimal (nat n))"

fun split_char :: "char \<Rightarrow> string \<Rightarrow> string list" where
  "split_char sep [] = [[]]"
| "split_char sep (c # cs) =
     (if c = sep then [] # split_char sep cs
      else (case split_char sep cs of
              [] \<Rightarrow> [[c]]
            | w # ws \<Rightarrow> (c # w) # ws))"

fun join_char :: "char \<Rightarrow> string list \<Rightarrow> string" where
  "join_char sep [] = []"
| "join_char sep [w] = w"
| "join_char sep (w # ws) = w @ sep # join_char sep ws"

text \<open>
  Percent decoding: an ASCII character or an escape is a byte (\<open>Inl\<close>), any other
  character stands for itself (\<open>Inr\<close>); the bytes are then read as UTF-8.
\<close>

fun unquote_items :: "string \<Rightarrow> (nat + char) list" where
  "unquote_items [] = []"
| "unquote_items (c # cs) =
     (if c = CHR ''%'' then
        (case cs of
           d # e # rest \<Rightarrow>
             (case (hex_value d, hex_value e) of
                (Some hi, Some lo) \<Rightarrow> Inl (16 * hi + lo) # unquote_items rest
              | _ \<Rightarrow> Inl (of_char c) # unquote_items cs)
         | _ \<Rightarrow> Inl (of_char c) # unquote_items cs)
      else if (of_char c :: nat) < 128 then Inl (of_char c) # unquote_items cs
      else Inr c # unquote_items cs)"

fun utf8_items :: "(nat + char) list \<Rightarrow> string option" where
  "utf8_items [] = Some []"
| "utf8_items (Inr c # xs) = map_option ((#) c) (utf8_items xs)"
| "utf8_items (Inl b # xs) =
     (if b < 128 then map_option ((#) (char_of b)) (utf8_items xs)
      else
        (case xs of
           Inl c # ys \<Rightarrow>
             if (b = 194 \<or> b = 195) \<and> 128 \<le> c \<and> c < 192
             then map_option ((#) (char_of ((b - 192) * 64 + (c - 128)))) (utf8_items ys)
             else None
         | _ \<Rightarrow> None))"

definition unquote :: "string \<Rightarrow> string option" where
  "unquote s = utf8_items (unquote_items s)"

definition hex_upper :: "nat \<Rightarrow> char" where
  "hex_upper n = ''0123456789ABCDEF'' ! (n mod 16)"

definition percent :: "nat \<Rightarrow> string" where
  "percent b = [CHR ''%'', hex_upper (b div 16), hex_upper b]"

definition quote_char :: "char \<Rightarrow> string" where
  "quote_char c =
     (if c \<in> set ''ABCDEFGHIJKLMNOPQRSTUVWXYZabcdefghijklmnopqrstuvwxyz0123456789_.-~'' then [c]
      else if c = CHR '' '' then ''+''
      else if (of_char c :: nat) < 128 then percent (of_char c)
      else percent (192 + of_char c div 64) @ percent (128 + of_char c mod 64))"

definition quote_plus :: "string \<Rightarrow> string" where
  "quote_plus s = concat (map quote_char s)"

definition url_query :: "string \<Rightarrow> string" where
  "url_query u =
     (let u = dropWhile (\<lambda>c. (of_char c :: nat) \<le> 32) u;
          u = filter (\<lambda>c. c \<notin> set [CHR 0x09, CHR 0x0A, CHR 0x0D]) u;
          u = takeWhile (\<lambda>c. c \<noteq> CHR ''#'') u
      in case dropWhile (\<lambda>c. c \<noteq> CHR ''?'') u of
           [] \<Rightarrow> []
         | q # rest \<Rightarrow> rest)"

fun add_value :: "(string \<times> string list) list \<Rightarrow> string \<Rightarrow> string \<Rightarrow> (string \<times> string list) list" where
  "add_value [] k v = [(k, [v])]"
| "add_value ((k', vs) # ps) k v =
     (if k' = k then (k', vs @ [v]) # ps else (k', vs) # add_value ps k v)"

definition plus_to_space :: "string \<Rightarrow> string" where
  "plus_to_space s = map (\<lambda>c. if c = CHR ''+'' then CHR '' '' else c) s"

fun parse_fields ::
  "string list \<Rightarrow> (string \<times> string list) list \<Rightarrow> (string \<times> string list) list option"
where
  "parse_fields [] acc = Some acc"
| "parse_fields (nv # rest) acc =
     (if CHR ''='' \<notin> set nv then parse_fields rest acc
      else
        (let name = takeWhile (\<lambda>c. c \<noteq> CHR ''='') nv;
             val = tl (dropWhile (\<lambda>c. c \<noteq> CHR ''='') nv)
         in if val = [] then parse_fields rest acc
            else
              (case (unquote (plus_to_space name), unquote (plus_to_space val)) of
                 (Some name', Some val') \<Rightarrow> parse_fields rest (add_value acc name' val')
               | _ \<Rightarrow> None)))"

definition parse_qs :: "string \<Rightarrow> (string \<times> string list) list option" where
  "parse_qs qs = parse_fields (split_char (CHR ''&'') qs) []"

definition urlencode :: "(string \<times> string list) list \<Rightarrow> string" where
  "urlencode ps =
     join_char (CHR ''&'')
       (concat (map (\<lambda>(k, vs). map (\<lambda>v. quote_plus k @ ''='' @ quote_plus v) vs) ps))"

definition link_to :: "string \<Rightarrow> int \<Rightarrow> string" where
  "link_to u n =
     (case parse_qs (url_query u) of
        Some ps \<Rightarrow>
          takeWhile (\<lambda>c. c \<noteq> CHR ''?'') u @ ''?'' @
            urlencode (AList.update ''page'' [int_str n] ps)
      | None \<Rightarrow> undefined)"

text \<open>The rows of a paginated answer, when the request ended with one.\<close>

definition results_of :: "error + response \<Rightarrow> pyval list option" where
  "results_of r =
     (case r of
        Inl e \<Rightarrow> None
      | Inr resp \<Rightarrow>
          (case body resp of
             VDict d \<Rightarrow> (case dict_get d ''results'' of VList rows \<Rightarrow> Some rows | _ \<Rightarrow> None)
           | _ \<Rightarrow> None))"

text \<open>A well-formed identity in its textual form, and the identifier it denotes.\<close>

definition some_id :: string where
  "some_id = ''5f43a1b2c3d4e5f60718293a''"

definition some_oid :: objectid where
  "some_oid = ObjectId [95, 67, 161, 178, 195, 212, 229, 246, 7, 24, 41, 58]"


section \<open>Identity conversion\<close>

lemma convert_id_field_parsed:
  "truthy (dict_get (h r) ''_id'') \<Longrightarrow> object_id (dict_get (h r) ''_id'') = Inr oid \<Longrightarrow>
   convert_id_field h r = (h(r := dict_set (h r) ''_id'' (VOid oid)), Inr r)"
  by (simp add: convert_id_field_def)

lemma convert_id_field_ref:
  "convert_id_field h r = (h1, Inr r1) \<Longrightarrow> r1 = r"
  by (auto simp: convert_id_field_def Let_def split: if_splits sum.splits)

lemma object_id_some_id: "object_id (VStr some_id) = Inr some_oid"
  unfolding some_id_def some_oid_def by (simp add: hex_value_def is_space_def)

lemma convert_some_id:
  "convert_id_field (one_filter [(''_id'', VStr some_id)]) 0 =
     (one_filter [(''_id'', VOid some_oid)], Inr 0)"
proof -
  have t: "truthy (dict_get (one_filter [(''_id'', VStr some_id)] 0) ''_id'')"
    by (simp add: one_filter_def dict_get_def some_id_def)
  have o: "object_id (dict_get (one_filter [(''_id'', VStr some_id)] 0) ''_id'') = Inr some_oid"
    by (simp add: one_filter_def dict_get_def object_id_some_id del: object_id.simps)
  show ?thesis
    using convert_id_field_parsed [of "one_filter [(''_id'', VStr some_id)]" 0 some_oid] t o
    by (simp add: one_filter_def dict_set_def)
qed

section \<open>Update: one document or many\<close>

text \<open>
  C1. The manager's \<^verbatim>\<open>update\<close> wraps the payload in \<^verbatim>\<open>{"$set": data}\<close> and
  then tests the length of that wrapper, which is always 1: whatever the payload and the
  filter, the only driver call made, and the one awaited, is \<^verbatim>\<open>update_one\<close>. No
  pair of payloads separates a single-document from a many-document update.
\<close>

theorem update_awaits_update_one:
  assumes "manager_update h r data = (h1, Inr calls)"
  shows "calls = [UpdateOne (h1 r) [(''$set'', VDict data)]]"
proof -
  obtain h' res where c: "convert_id_field h r = (h', res)"
    by (cases "convert_id_field h r")
  show ?thesis
  proof (cases res)
    case (Inl e)
    with c assms show ?thesis by (simp add: manager_update_def)
  next
    case (Inr r1)
    with c have "r1 = r" using convert_id_field_ref by blast
    with c Inr assms show ?thesis by (auto simp: manager_update_def)
  qed
qed

theorem update_awaits_update_one_witness:
  "manager_update (one_filter [(''_id'', VStr some_id)]) 0 [(''a'', VInt 1)] =
     (one_filter [(''_id'', VOid some_oid)],
      Inr [UpdateOne [(''_id'', VOid some_oid)] [(''$set'', VDict [(''a'', VInt 1)])]]) \<and>
   manager_update (one_filter [(''_id'', VStr some_id)]) 0 [(''a'', VInt 1), (''b'', VInt 2)] =
     (one_filter [(''_id'', VOid some_oid)],
      Inr [UpdateOne [(''_id'', VOid some_oid)]
             [(''$set'', VDict [(''a'', VInt 1), (''b'', VInt 2)])]])"
proof -
  have run: "manager_update (one_filter [(''_id'', VStr some_id)]) 0 d =
      (one_filter [(''_id'', VOid some_oid)],
       snd (manager_update (one_filter [(''_id'', VStr some_id)]) 0 d))" for d
    by (simp add: manager_update_def convert_some_id)
  have ok: "snd (manager_update (one_filter [(''_id'', VStr some_id)]) 0 d) =
      Inr (projr (snd (manager_update (one_filter [(''_id'', VStr some_id)]) 0 d)))" for d
    by (simp add: manager_update_def convert_some_id)
  have "projr (snd (manager_update (one_filter [(''_id'', VStr some_id)]) 0 d)) =
      [UpdateOne [(''_id'', VOid some_oid)] [(''$set'', VDict d)]]" for d
    using update_awaits_update_one [of "one_filter [(''_id'', VStr some_id)]" 0 d
        "one_filter [(''_id'', VOid some_oid)]"
        "projr (snd (manager_update (one_filter [(''_id'', VStr some_id)]) 0 d))"]
      run [of d] ok [of d]
    by (simp add: one_filter_def)
  with run ok show ?thesis by metis
qed

section \<open>Deleting an identity that is not stored\<close>

text \<open>
  C3. The handler's \<^verbatim>\<open>delete\<close> tests the truth of the driver's result object, not
  its count of deleted documents; the object is always true. So when the manager's delete
  reports zero deleted documents, the handler still answers 200 with the identity, where
  the claim expects a 400-class answer.
\<close>

theorem delete_answers_200_with_nothing_deleted:
  assumes "manager_delete eng coll (one_filter [(''_id'', VStr oid_arg)]) 0 =
             (h1, Inr (coll', result))"
      and "deleted_count result = 0"
  shows "view_delete eng coll oid_arg =
           (coll', Inr \<lparr>status = 200, body = VDict [(''_id'', VStr oid_arg)]\<rparr>)"
  using assms by (simp add: view_delete_def delete_result_truthy_def)

theorem delete_answers_200_with_nothing_deleted_witness:
  "manager_delete example_mongo [] (one_filter [(''_id'', VStr some_id)]) 0 =
     (one_filter [(''_id'', VOid some_oid)], Inr ([], \<lparr>deleted_count = 0\<rparr>)) \<and>
   deleted_count \<lparr>deleted_count = 0\<rparr> = 0 \<and>
   view_delete example_mongo [] some_id =
     ([], Inr \<lparr>status = 200, body = VDict [(''_id'', VStr some_id)]\<rparr>) \<and>
   execute_delete open_view example_mongo []
       \<lparr>uri = ''/r/5f43a1b2c3d4e5f60718293a'', query_arguments = []\<rparr> some_id =
     ([HasPermission 0, Authenticate], [],
      Inr \<lparr>status = 200, body = VDict [(''_id'', VStr some_id)]\<rparr>)"
proof -
  have run: "manager_delete example_mongo [] (one_filter [(''_id'', VStr some_id)]) 0 =
     (one_filter [(''_id'', VOid some_oid)], Inr ([], \<lparr>deleted_count = 0\<rparr>))"
    by (simp add: manager_delete_def convert_some_id delete_one_def)
  have prep: "prepare open_view \<lparr>uri = ''/r/5f43a1b2c3d4e5f60718293a'', query_arguments = []\<rparr> =
      ([HasPermission 0, Authenticate], Continue (set_pagination open_view []))"
    by (simp add: prepare_def extract_query_args_def open_view_def check_authentication_def)
  show ?thesis
    using delete_answers_200_with_nothing_deleted [OF run] run
    by (simp add: execute_delete_def prep)
qed

section \<open>Parsing the query string\<close>

lemma int_all_char:
  "int_all xs =
     (if list_all (\<lambda>c. py_int c \<noteq> None) xs then Some (map (\<lambda>c. the (py_int c)) xs)
      else None)"
  by (induction xs) (auto split: option.splits)

lemma filter_value_step:
  "(case int_all (split_comma v) of
      Some ints \<Rightarrow>
        extract_loop rest
          (dict_set acc k (case ints of [n] \<Rightarrow> VInt n | _ \<Rightarrow> VList (map VInt ints)))
    | None \<Rightarrow>
        extract_loop rest
          (dict_set acc k
             (case split_comma v of
                [arg] \<Rightarrow> VStr arg
              | _ \<Rightarrow> VList (map VStr (split_comma v)))))
   = extract_loop rest (dict_set acc k (spec_filter_value v))"
  by (auto simp: int_all_char spec_filter_value_def Let_def comp_def split: list.splits)

lemma extract_loop_spec:
  "extract_loop (map (\<lambda>(k, earlier, v). (k, earlier @ [Utf8 v])) entries) acc =
     Inr (foldl (\<lambda>d (k, earlier, v). dict_set d (replace_dunder k) (spec_filter_value v))
            acc entries)"
proof (induction entries arbitrary: acc)
  case Nil
  then show ?case by simp
next
  case (Cons e entries)
  obtain k earlier v where e: "e = (k, earlier, v)" by (cases e)
  show ?case
    using Cons.IH by (simp add: e decode_def Let_def filter_value_step)
qed

lemma spec_filter_value_examples:
  "spec_filter_value ''1,2,3'' = VList [VInt 1, VInt 2, VInt 3]"
  "spec_filter_value ''a,b'' = VList [VStr ''a'', VStr ''b'']"
  "spec_filter_value ''5'' = VInt 5"
  "spec_filter_value [CHR 0xA0, CHR ''5''] = VInt 5"
  "spec_filter_value ''-1_0, +7'' = VList [VInt (- 10), VInt 7]"
  "spec_filter_value ''1__0'' = VStr ''1__0''"
  by code_simp+

lemma extract_query_args_spec:
  "extract_query_args
     \<lparr>uri = u, query_arguments = map (\<lambda>(k, earlier, v). (k, earlier @ [Utf8 v])) entries\<rparr> =
   Inr (foldl (\<lambda>d (k, earlier, v). dict_set d (replace_dunder k) (spec_filter_value v))
          [] entries)"
  by (auto simp: extract_query_args_def extract_loop_spec)

subsection \<open>Splitting on commas\<close>

lemma split_comma_nonempty: "split_comma v \<noteq> []"
  by (induction v) (auto split: list.splits)

lemma split_comma_pieces: "list_all (\<lambda>p. CHR '','' \<notin> set p) (split_comma v)"
  by (induction v) (auto split: list.splits)

lemma join_commas_cons: "join_commas ((c # w) # ws) = c # join_commas (w # ws)"
  by (cases ws) simp_all

lemma join_split_comma: "join_commas (split_comma v) = v"
proof (induction v)
  case Nil
  then show ?case by simp
next
  case (Cons c v)
  obtain w ws where s: "split_comma v = w # ws"
    using split_comma_nonempty [of v] by (cases "split_comma v") auto
  show ?case
    using Cons.IH by (simp add: s join_commas_cons)
qed

subsection \<open>Double underscores\<close>

lemma has_dunder_tail: "has_dunder cs \<Longrightarrow> has_dunder (c # cs)"
  unfolding has_dunder_def by (metis append_Cons)

lemma has_dunder_head: "has_dunder (CHR ''_'' # CHR ''_'' # cs)"
  unfolding has_dunder_def by (metis append_Cons append_Nil)

lemma replace_dunder_none: "\<not> has_dunder k \<Longrightarrow> replace_dunder k = k"
proof (induction k rule: replace_dunder.induct)
  case (1 c d cs)
  then show ?case
    using has_dunder_tail [of "d # cs" c] has_dunder_head [of cs] by auto
qed simp_all

lemma replace_dunder_first:
  "\<not> has_dunder (a @ ''_'') \<Longrightarrow> replace_dunder (a @ ''__'' @ b) = a @ ''.'' @ replace_dunder b"
proof (induction a)
  case Nil
  then show ?case by simp
next
  case (Cons c a)
  have IH: "replace_dunder (a @ ''__'' @ b) = a @ ''.'' @ replace_dunder b"
    using Cons has_dunder_tail [of "a @ ''_''" c] by auto
  obtain h t where ht: "a @ ''__'' @ b = h # t"
    by (cases "a @ ''__'' @ b") auto
  have "\<not> (c = CHR ''_'' \<and> h = CHR ''_'')"
  proof
    assume ch: "c = CHR ''_'' \<and> h = CHR ''_''"
    have "\<exists>r. (c # a) @ ''_'' = CHR ''_'' # CHR ''_'' # r"
      using ht ch by (cases a) auto
    then show False
      using Cons.prems has_dunder_head by metis
  qed
  then have "replace_dunder (c # h # t) = c # replace_dunder (h # t)"
    by auto
  then show ?case
    using IH ht by simp
qed

lemma has_dunder_nil: "\<not> has_dunder []"
  by (simp add: has_dunder_def)

lemma has_dunder_one: "\<not> has_dunder [c]"
  by (auto simp: has_dunder_def Cons_eq_append_conv)

lemma has_dunder_cons:
  "has_dunder (c # d # cs) = (c = CHR ''_'' \<and> d = CHR ''_'' \<or> has_dunder (d # cs))"
proof
  assume "has_dunder (c # d # cs)"
  then obtain a b where k: "c # d # cs = a @ ''__'' @ b"
    unfolding has_dunder_def by blast
  show "c = CHR ''_'' \<and> d = CHR ''_'' \<or> has_dunder (d # cs)"
  proof (cases a)
    case Nil
    then show ?thesis using k by simp
  next
    case (Cons e a')
    then have "d # cs = a' @ ''__'' @ b" using k by simp
    then show ?thesis unfolding has_dunder_def by blast
  qed
next
  assume "c = CHR ''_'' \<and> d = CHR ''_'' \<or> has_dunder (d # cs)"
  then show "has_dunder (c # d # cs)"
    using has_dunder_head [of cs] has_dunder_tail [of "d # cs" c] by auto
qed

subsection \<open>Integer literals\<close>

lemma is_int_space_iff: "is_int_space c = (c \<in> int_whitespace)"
  by (auto simp: is_int_space_def is_space_def int_whitespace_def)

lemma digit_value_eq: "digit_value c = (if is_digit c then Some (digit_of c) else None)"
  by (auto simp: digit_value_def is_digit_def digit_of_def)

lemma digit_not_space: "is_digit c \<Longrightarrow> \<not> is_int_space c"
  by (auto simp: is_digit_def is_int_space_def is_space_def)

lemma underscore_no_digit: "\<not> is_digit CHR ''_''"
  by (simp add: is_digit_def)

lemma digits_value_char:
  "digits_value after acc cs =
     (if list_all (\<lambda>c. is_digit c \<or> c = CHR ''_'') cs \<and> (cs = [] \<longrightarrow> after) \<and>
         (cs \<noteq> [] \<longrightarrow> is_digit (last cs)) \<and> (\<not> after \<longrightarrow> cs \<noteq> [] \<longrightarrow> is_digit (hd cs)) \<and>
         list_all (\<lambda>(c, d). \<not> (c = CHR ''_'' \<and> d = CHR ''_'')) (zip cs (tl cs))
      then Some (foldl (\<lambda>a c. 10 * a + digit_of c) acc (filter is_digit cs))
      else None)"
proof (induction cs arbitrary: after acc)
  case Nil
  then show ?case by simp
next
  case (Cons c cs)
  have step: "digits_value after acc (c # cs) =
      (if is_digit c then digits_value True (10 * acc + digit_of c) cs
       else if c = CHR ''_'' \<and> after then digits_value False acc cs else None)"
    by (simp add: digit_value_eq)
  show ?case
    unfolding step Cons.IH
    using underscore_no_digit by (cases cs) (auto simp del: digits_value.simps)
qed

lemma digits_value_grouped:
  "digits_value False 0 ds = (if grouped_digits ds then Some (decimal_value ds) else None)"
  by (auto simp: digits_value_char grouped_digits_def decimal_value_def)

lemma dropWhile_all:
  "list_all P a \<Longrightarrow> xs \<noteq> [] \<Longrightarrow> \<not> P (hd xs) \<Longrightarrow> dropWhile P (a @ xs) = xs"
  by (induction a) (auto, cases xs, auto)

lemma strip_middle:
  assumes "list_all is_int_space a" and "list_all is_int_space b" and "m \<noteq> []"
      and "\<not> is_int_space (hd m)" and "\<not> is_int_space (last m)"
  shows "strip (a @ m @ b) = m"
proof -
  have "dropWhile is_int_space (a @ m @ b) = m @ b"
    using assms by (simp add: dropWhile_all)
  moreover have "dropWhile is_int_space (rev b @ rev m) = rev m"
    using assms by (simp add: dropWhile_all hd_rev)
  ultimately show ?thesis
    by (simp add: strip_def)
qed

lemma strip_decomp:
  "\<exists>a b. s = a @ strip s @ b \<and> list_all is_int_space a \<and> list_all is_int_space b"
proof -
  let ?rest = "dropWhile is_int_space s"
  let ?a = "takeWhile is_int_space s"
  let ?b = "rev (takeWhile is_int_space (rev ?rest))"
  have "rev ?rest = takeWhile is_int_space (rev ?rest) @ dropWhile is_int_space (rev ?rest)"
    by simp
  then have "?rest = strip s @ ?b"
    by (metis rev_append rev_rev_ident strip_def)
  then have "s = ?a @ strip s @ ?b"
    by (metis takeWhile_dropWhile_id)
  moreover have "list_all is_int_space ?a" "list_all is_int_space ?b"
    by (auto simp: list_all_iff dest: set_takeWhileD)
  ultimately show ?thesis by blast
qed

lemma filter_digit_value: "filter (\<lambda>d. digit_value d \<noteq> None) xs = filter is_digit xs"
  by (simp add: digit_value_eq)

lemma py_int_stripped:
  "py_int s =
     (case strip s of
        [] \<Rightarrow> None
      | c # cs \<Rightarrow>
          (let ds = (if c = CHR ''-'' \<or> c = CHR ''+'' then cs else c # cs) in
           if 4300 < length (filter is_digit ds) \<or> \<not> grouped_digits ds then None
           else Some (if c = CHR ''-'' then - int (decimal_value ds) else int (decimal_value ds))))"
  unfolding py_int_def filter_digit_value digits_value_grouped max_str_digits_def
  by (auto simp: Let_def split: list.splits)

lemma py_int_literal: "(py_int s = Some n) = int_literal s n"
proof
  assume p: "py_int s = Some n"
  obtain a b where ab: "s = a @ strip s @ b" "list_all is_int_space a" "list_all is_int_space b"
    using strip_decomp by blast
  obtain c cs where st: "strip s = c # cs"
    using p by (cases "strip s") (auto simp: py_int_stripped)
  let ?ds = "if c = CHR ''-'' \<or> c = CHR ''+'' then cs else c # cs"
  let ?sgn = "if c = CHR ''-'' then ''-'' else if c = CHR ''+'' then ''+'' else []"
  have g: "grouped_digits ?ds" and l: "length (filter is_digit ?ds) \<le> 4300"
    and n: "n = (if c = CHR ''-'' then - int (decimal_value ?ds) else int (decimal_value ?ds))"
    using p by (auto simp: py_int_stripped st Let_def split: if_splits)
  have "s = a @ ?sgn @ ?ds @ b"
    using ab(1) st by auto
  moreover have "set a \<subseteq> int_whitespace" "set b \<subseteq> int_whitespace"
    using ab(2,3) by (auto simp: list_all_iff is_int_space_iff)
  ultimately show "int_literal s n"
    unfolding int_literal_def using g l n
    by (intro exI [of _ a] exI [of _ ?sgn] exI [of _ ?ds] exI [of _ b]) auto
next
  assume "int_literal s n"
  then obtain a sgn ds b where d: "s = a @ sgn @ ds @ b" "set a \<subseteq> int_whitespace"
    "set b \<subseteq> int_whitespace" "sgn = [] \<or> sgn = ''+'' \<or> sgn = ''-''" "grouped_digits ds"
    "length (filter is_digit ds) \<le> 4300"
    "n = (if sgn = ''-'' then - int (decimal_value ds) else int (decimal_value ds))"
    unfolding int_literal_def by blast
  have ds: "ds \<noteq> []" "is_digit (hd ds)" "is_digit (last ds)"
    using d(5) by (auto simp: grouped_digits_def)
  have sp: "list_all is_int_space a" "list_all is_int_space b"
    using d(2,3) by (auto simp: list_all_iff is_int_space_iff)
  have signs: "\<not> is_int_space CHR ''+''" "\<not> is_int_space CHR ''-''"
    "\<not> is_digit CHR ''+''" "\<not> is_digit CHR ''-''"
    by (auto simp: is_int_space_def is_space_def is_digit_def)
  have "strip (a @ (sgn @ ds) @ b) = sgn @ ds"
    using sp ds d(4) signs digit_not_space
    by (intro strip_middle) (auto simp: hd_append)
  then have st: "strip s = sgn @ ds"
    using d(1) by simp
  obtain c cs where c: "ds = c # cs" using ds(1) by (cases ds) auto
  show "py_int s = Some n"
    using d(4) d(5) d(6) d(7) ds(2) signs
    by (auto simp: py_int_stripped st c Let_def)
qed

lemma py_int_examples:
  "py_int [CHR 0xA0, CHR ''5'', CHR 0x85] = Some 5"
  "py_int ''  -1_000 '' = Some (- 1000)"
  by code_simp+

text \<open>
  C5. Every key of the query string is taken with the last of its values, decoded to the
  text \<open>v\<close>; the filter gets, under the key with each double underscore turned into a dot,
  the value the specification's rule gives for \<open>v\<close>: the integer or list of integers when
  every comma-separated piece parses as an integer, the original text or list of texts
  otherwise. The parts of the rule are what their names say: the pieces of \<open>v\<close> are free of
  commas and joined by commas they give \<open>v\<close> back; a piece parses as the integer \<open>n\<close>
  exactly when it is an integer literal of value \<open>n\<close> (whitespace around an optional sign and
  at most 4300 decimal digits, grouped by single underscores); a key without a double
  underscore is kept, and the first double underscore of a key becomes a dot, the rest of
  the key being treated likewise.
\<close>

theorem extract_query_args_follows_spec:
  "extract_query_args
     \<lparr>uri = u, query_arguments = map (\<lambda>(k, earlier, v). (k, earlier @ [Utf8 v])) entries\<rparr> =
     Inr (foldl (\<lambda>d (k, earlier, v). dict_set d (replace_dunder k) (spec_filter_value v))
            [] entries) \<and>
   (split_comma v \<noteq> [] \<and> list_all (\<lambda>p. CHR '','' \<notin> set p) (split_comma v) \<and>
    join_commas (split_comma v) = v) \<and>
   ((py_int s = Some n) = int_literal s n) \<and>
   (\<not> has_dunder k \<longrightarrow> replace_dunder k = k) \<and>
   (\<not> has_dunder (a @ ''_'') \<longrightarrow>
      replace_dunder (a @ ''__'' @ b) = a @ ''.'' @ replace_dunder b)"
  using extract_query_args_spec [of u entries] split_comma_nonempty [of v]
    split_comma_pieces [of v] join_split_comma [of v] py_int_literal [of s n]
    replace_dunder_none [of k] replace_dunder_first [of a b]
  by blast

theorem extract_query_args_follows_spec_witness:
  "extract_query_args
     \<lparr>uri = ''/r?status=1,2,3'', query_arguments = [(''status'', [Utf8 ''1,2,3''])]\<rparr> =
     Inr [(''status'', VList [VInt 1, VInt 2, VInt 3])] \<and>
   extract_query_args
     \<lparr>uri = ''/r?status=a,b'', query_arguments = [(''status'', [Utf8 ''a,b''])]\<rparr> =
     Inr [(''status'', VList [VStr ''a'', VStr ''b''])] \<and>
   extract_query_args
     \<lparr>uri = ''/r?user__id=5'', query_arguments = [(''user__id'', [Utf8 ''5''])]\<rparr> =
     Inr [(''user.id'', VInt 5)] \<and>
   extract_query_args
     \<lparr>uri = ''/r?n=%C2%A05&m=-1_0,%20%2B7&v=0&v=1__0'',
      query_arguments = [(''n'', [Utf8 [CHR 0xA0, CHR ''5'']]), (''m'', [Utf8 ''-1_0, +7'']),
                         (''v'', [Utf8 ''0'', Utf8 ''1__0''])]\<rparr> =
     Inr [(''n'', VInt 5), (''m'', VList [VInt (- 10), VInt 7]), (''v'', VStr ''1__0'')] \<and>
   join_commas (split_comma ''1,2,3'') = ''1,2,3'' \<and>
   int_literal [CHR 0xA0, CHR ''5'', CHR 0x85] 5 \<and>
   int_literal ''  -1_000 '' (- 1000) \<and>
   \<not> has_dunder ''status'' \<and> replace_dunder ''status'' = ''status'' \<and>
   \<not> has_dunder ''user_'' \<and> replace_dunder ''user__id'' = ''user.id''"
  using extract_query_args_follows_spec
      [of "''/r?status=1,2,3''" "[(''status'', [], ''1,2,3'')]" "''1,2,3''"
          "[CHR 0xA0, CHR ''5'', CHR 0x85]" 5 "''status''" "''user''" "''id''"]
    extract_query_args_follows_spec
      [of "''/r?status=a,b''" "[(''status'', [], ''a,b'')]" "''1,2,3''"
          "''  -1_000 ''" "- 1000" "''status''" "''user''" "''id''"]
    extract_query_args_follows_spec
      [of "''/r?user__id=5''" "[(''user__id'', [], ''5'')]" "''1,2,3''"
          "''  -1_000 ''" "- 1000" "''status''" "''user''" "''id''"]
    extract_query_args_follows_spec
      [of "''/r?n=%C2%A05&m=-1_0,%20%2B7&v=0&v=1__0''"
          "[(''n'', [], [CHR 0xA0, CHR ''5'']), (''m'', [], ''-1_0, +7''),
            (''v'', [Utf8 ''0''], ''1__0'')]" "''1,2,3''"
          "''  -1_000 ''" "- 1000" "''status''" "''user''" "''id''"]
  by (simp add: spec_filter_value_examples py_int_examples dict_set_def
        has_dunder_cons has_dunder_one has_dunder_nil)

section \<open>Creating a document\<close>









section \<open>The total of a query\<close>

text \<open>
  C8. When \<^verbatim>\<open>find\<close> returns a result container, its total is the number of
  documents of the collection that match the filter (as the driver receives it), whatever
  the manager's skip and limit, the limit argument, the sort and the mode; any other call
  on the same filter and collection that returns has the same total.
\<close>

theorem find_total_counts_all_matches:
  assumes "manager_find eng self coll h r many sort_arg remove_fields limit_arg = (h1, Inr qs)"
  shows "total qs = length (filter (matches eng (h1 r)) coll) \<and>
         (\<forall>self' many' sort_arg' remove_fields' limit_arg' h2 qs'.
            manager_find eng self' coll h r many' sort_arg' remove_fields' limit_arg' = (h2, Inr qs')
            \<longrightarrow> total qs' = total qs)"
proof -
  have one: "total q = length (filter (matches eng (fst (convert_id_field h r) r)) coll) \<and> h' = fst (convert_id_field h r)"
    if "manager_find eng s coll h r mn sa rf la = (h', Inr q)" for s mn sa rf la h' q
  proof -
    obtain hc res where c: "convert_id_field h r = (hc, res)" by (cases "convert_id_field h r")
    show ?thesis
    proof (cases res)
      case (Inl e)
      with c that show ?thesis by (simp add: manager_find_def parse_query_filter_def)
    next
      case (Inr r1)
      with c have r1: "r1 = r" using convert_id_field_ref by blast
      from that c Inr r1 show ?thesis
        by (auto simp: manager_find_def parse_query_filter_def Let_def count_documents_def
            split: if_splits sum.splits)
    qed
  qed
  from one [OF assms] one show ?thesis by metis
qed

lemma find_example:
  "snd (manager_find example_mongo \<lparr>skip = VInt 1, limit = VInt 2\<rparr> (numbered_docs 5)
          (one_filter []) 0 True (Some (''_id'', - 1)) [] VNone) =
     Inr \<lparr>qvalue = VList
              [VDict [(''_id'', VDict [(''$oid'', VStr ''000000000000000000000003'')])],
               VDict [(''_id'', VDict [(''$oid'', VStr ''000000000000000000000002'')])]],
          total = 5\<rparr>"
  by code_simp

theorem find_total_counts_all_matches_witness:
  "snd (manager_find example_mongo \<lparr>skip = VInt 1, limit = VInt 2\<rparr> (numbered_docs 5)
          (one_filter []) 0 True (Some (''_id'', - 1)) [] VNone) =
     Inr \<lparr>qvalue = VList
              [VDict [(''_id'', VDict [(''$oid'', VStr ''000000000000000000000003'')])],
               VDict [(''_id'', VDict [(''$oid'', VStr ''000000000000000000000002'')])]],
          total = 5\<rparr> \<and>
   length (filter (matches example_mongo
     (fst (manager_find example_mongo \<lparr>skip = VInt 1, limit = VInt 2\<rparr> (numbered_docs 5)
          (one_filter []) 0 True (Some (''_id'', - 1)) [] VNone) 0)) (numbered_docs 5)) = 5"
proof -
  let ?run = "manager_find example_mongo \<lparr>skip = VInt 1, limit = VInt 2\<rparr> (numbered_docs 5)
          (one_filter []) 0 True (Some (''_id'', - 1)) [] VNone"
  let ?qs = "\<lparr>qvalue = VList
              [VDict [(''_id'', VDict [(''$oid'', VStr ''000000000000000000000003'')])],
               VDict [(''_id'', VDict [(''$oid'', VStr ''000000000000000000000002'')])]],
          total = 5\<rparr>"
  have "?run = (fst ?run, Inr ?qs)"
    using find_example by (metis prod.collapse)
  from find_total_counts_all_matches [OF this] find_example show ?thesis by simp
qed

section \<open>The filter across a manager call\<close>

lemma manager_find_store:
  "fst (manager_find eng self coll h r many sort_arg remove_fields limit_arg) =
     fst (convert_id_field h r)"
  by (auto simp: manager_find_def parse_query_filter_def Let_def
      split: prod.splits sum.splits if_splits)

lemma manager_update_store: "fst (manager_update h r data) = fst (convert_id_field h r)"
  by (auto simp: manager_update_def Let_def split: prod.splits sum.splits)

lemma manager_delete_store: "fst (manager_delete eng coll h r) = fst (convert_id_field h r)"
  by (auto simp: manager_delete_def split: prod.splits sum.splits)

lemma manager_find_total:
  assumes "convert_id_field h r = (h1, Inr r)"
      and "snd (manager_find eng self coll h r many sort_arg remove_fields limit_arg) = Inr qs"
  shows "total qs = count_documents eng coll (h1 r)"
  using assms
  by (auto simp: manager_find_def parse_query_filter_def Let_def split: if_splits sum.splits)

lemma manager_update_calls:
  "convert_id_field h r = (h1, Inr r) \<Longrightarrow>
   snd (manager_update h r data) = Inr [UpdateOne (h1 r) [(''$set'', VDict data)]]"
  by (simp add: manager_update_def)

lemma manager_delete_result:
  "convert_id_field h r = (h1, Inr r) \<Longrightarrow>
   snd (manager_delete eng coll h r) = Inr (delete_one eng coll (h1 r))"
  by (simp add: manager_delete_def)

text \<open>
  C10. The manager's \<^verbatim>\<open>find\<close>, \<^verbatim>\<open>update\<close> and \<^verbatim>\<open>delete\<close> work
  on the caller's own dictionary. When its \<^verbatim>\<open>_id\<close> is truthy and parses, the store
  after the call holds, at the caller's reference, the filter with the identifier object in
  place of the text, also when the call raises later. When its \<^verbatim>\<open>_id\<close> is falsy
  (absent, or for instance the empty text) the store is unchanged and the driver receives
  the filter as it is.
\<close>

theorem filter_is_mutated_in_place:
  "(truthy (dict_get (h r) ''_id'') \<and> object_id (dict_get (h r) ''_id'') = Inr oid \<longrightarrow>
      fst (manager_find eng self coll h r many sort_arg remove_fields limit_arg) =
        h(r := dict_set (h r) ''_id'' (VOid oid)) \<and>
      fst (manager_update h r data) = h(r := dict_set (h r) ''_id'' (VOid oid)) \<and>
      fst (manager_delete eng coll h r) = h(r := dict_set (h r) ''_id'' (VOid oid))) \<and>
   (\<not> truthy (dict_get (h r) ''_id'') \<longrightarrow>
      fst (manager_find eng self coll h r many sort_arg remove_fields limit_arg) = h \<and>
      fst (manager_update h r data) = h \<and>
      fst (manager_delete eng coll h r) = h \<and>
      snd (manager_update h r data) = Inr [UpdateOne (h r) [(''$set'', VDict data)]] \<and>
      snd (manager_delete eng coll h r) = Inr (delete_one eng coll (h r)) \<and>
      (\<forall>qs. snd (manager_find eng self coll h r many sort_arg remove_fields limit_arg) = Inr qs
            \<longrightarrow> total qs = count_documents eng coll (h r)))"
proof (intro conjI impI)
  assume f: "\<not> truthy (dict_get (h r) ''_id'')"
  then have c: "convert_id_field h r = (h, Inr r)"
    by (simp add: convert_id_field_def)
  show "fst (manager_find eng self coll h r many sort_arg remove_fields limit_arg) = h"
    by (simp add: manager_find_store c)
  show "fst (manager_update h r data) = h" by (simp add: manager_update_store c)
  show "fst (manager_delete eng coll h r) = h" by (simp add: manager_delete_store c)
  show "snd (manager_update h r data) = Inr [UpdateOne (h r) [(''$set'', VDict data)]]"
    by (rule manager_update_calls [OF c])
  show "snd (manager_delete eng coll h r) = Inr (delete_one eng coll (h r))"
    by (rule manager_delete_result [OF c])
  show "\<forall>qs. snd (manager_find eng self coll h r many sort_arg remove_fields limit_arg) = Inr qs
            \<longrightarrow> total qs = count_documents eng coll (h r)"
    using manager_find_total [OF c] by blast
next
  assume t: "truthy (dict_get (h r) ''_id'') \<and> object_id (dict_get (h r) ''_id'') = Inr oid"
  then have c: "convert_id_field h r = (h(r := dict_set (h r) ''_id'' (VOid oid)), Inr r)"
    by (simp add: convert_id_field_parsed)
  show "fst (manager_find eng self coll h r many sort_arg remove_fields limit_arg) =
        h(r := dict_set (h r) ''_id'' (VOid oid))"
    by (simp add: manager_find_store c)
  show "fst (manager_update h r data) = h(r := dict_set (h r) ''_id'' (VOid oid))"
    by (simp add: manager_update_store c)
  show "fst (manager_delete eng coll h r) = h(r := dict_set (h r) ''_id'' (VOid oid))"
    by (simp add: manager_delete_store c)
qed

lemma get_some_id: "dict_get (one_filter [(''_id'', v)] 0) ''_id'' = v"
  by (simp add: one_filter_def dict_get_def)

lemma set_some_id: "(one_filter [(''_id'', v)]) (0 := dict_set (one_filter [(''_id'', v)] 0) ''_id'' w) = one_filter [(''_id'', w)]"
  by (simp add: one_filter_def dict_set_def)

theorem filter_is_mutated_in_place_witness:
  "fst (manager_find example_mongo \<lparr>skip = VNone, limit = VNone\<rparr> [] 
          (one_filter [(''_id'', VStr some_id)]) 0 True None [] VNone) =
     one_filter [(''_id'', VOid some_oid)] \<and>
   fst (manager_update (one_filter [(''_id'', VStr some_id)]) 0 [(''a'', VInt 1)]) =
     one_filter [(''_id'', VOid some_oid)] \<and>
   fst (manager_delete example_mongo [] (one_filter [(''_id'', VStr some_id)]) 0) =
     one_filter [(''_id'', VOid some_oid)] \<and>
   fst (manager_find example_mongo \<lparr>skip = VNone, limit = VNone\<rparr> [] 
          (one_filter [(''_id'', VStr '''')]) 0 True None [] VNone) =
     one_filter [(''_id'', VStr '''')] \<and>
   manager_update (one_filter [(''_id'', VStr '''')]) 0 [(''a'', VInt 1)] =
     (one_filter [(''_id'', VStr '''')],
      Inr [UpdateOne [(''_id'', VStr '''')] [(''$set'', VDict [(''a'', VInt 1)])]]) \<and>
   manager_delete example_mongo [] (one_filter [(''_id'', VStr '''')]) 0 =
     (one_filter [(''_id'', VStr '''')], Inr (delete_one example_mongo [] [(''_id'', VStr '''')]))"
proof -
  have t: "truthy (dict_get (one_filter [(''_id'', VStr some_id)] 0) ''_id'') \<and>
      object_id (dict_get (one_filter [(''_id'', VStr some_id)] 0) ''_id'') = Inr some_oid"
    by (simp add: get_some_id object_id_some_id del: object_id.simps) (simp add: some_id_def)
  have f: "\<not> truthy (dict_get (one_filter [(''_id'', VStr '''')] 0) ''_id'')"
    by (simp add: get_some_id)
  show ?thesis
    using filter_is_mutated_in_place [of "one_filter [(''_id'', VStr some_id)]" 0 some_oid
        example_mongo "\<lparr>skip = VNone, limit = VNone\<rparr>" "[]" True None "[]" VNone "[(''a'', VInt 1)]"]
      filter_is_mutated_in_place [of "one_filter [(''_id'', VStr '''')]" 0 some_oid
        example_mongo "\<lparr>skip = VNone, limit = VNone\<rparr>" "[]" True None "[]" VNone "[(''a'', VInt 1)]"]
      t f
    by (simp add: set_some_id prod_eq_iff del: object_id.simps) (simp add: one_filter_def)
qed

section \<open>Identity conversion in every filter-accepting operation\<close>

lemma one_filter_at: "one_filter d 0 = d"
  by (simp add: one_filter_def)

lemma dict_set_id: "dict_set [(''_id'', v)] ''_id'' w = [(''_id'', w)]"
  by (simp add: dict_set_def)

text \<open>
  C6, as the claim states it, fails on a filter whose \<^verbatim>\<open>_id\<close> is the empty text: the
  key is present and its value is malformed (\<^verbatim>\<open>ObjectId('')\<close> raises
  \<^verbatim>\<open>InvalidId\<close>), yet \<^verbatim>\<open>delete\<close>, \<^verbatim>\<open>update\<close> and \<^verbatim>\<open>find\<close>
  neither convert it nor raise: they query with the text as it is.
\<close>

theorem empty_identity_is_neither_converted_nor_rejected:
  "object_id (VStr '''') = Inl InvalidId \<and>
   manager_delete example_mongo [] (one_filter [(''_id'', VStr '''')]) 0 =
     (one_filter [(''_id'', VStr '''')], Inr ([], \<lparr>deleted_count = 0\<rparr>)) \<and>
   manager_update (one_filter [(''_id'', VStr '''')]) 0 [(''a'', VInt 1)] =
     (one_filter [(''_id'', VStr '''')],
      Inr [UpdateOne [(''_id'', VStr '''')] [(''$set'', VDict [(''a'', VInt 1)])]]) \<and>
   manager_find example_mongo \<lparr>skip = VNone, limit = VNone\<rparr> []
       (one_filter [(''_id'', VStr '''')]) 0 True None [] VNone =
     (one_filter [(''_id'', VStr '''')], Inr \<lparr>qvalue = VList [], total = 0\<rparr>)"
proof -
  have c: "convert_id_field (one_filter [(''_id'', VStr '''')]) 0 =
      (one_filter [(''_id'', VStr '''')], Inr 0)"
    by (simp add: convert_id_field_def get_some_id)
  show ?thesis
    by (simp add: manager_delete_def manager_update_def manager_find_def parse_query_filter_def
        c delete_one_def one_filter_at count_documents_def to_list_def collection_find_def
        apply_limit_def parse_remove_fields_def)
qed

lemma guarded_limit_general:
  "(if truthy lm then cursor_limit lm c else Inr c) = Inr c' \<Longrightarrow>
   c' = c\<lparr>limited := (if truthy lm then documents_limit lm else limited c)\<rparr>"
  by (cases lm) (auto simp: cursor_limit_def documents_limit_def split: if_splits)

lemma guarded_skip_first:
  "(if truthy sk then cursor_skip sk c else Inr c) = Inr c' \<Longrightarrow>
   skipped c = 0 \<Longrightarrow> c' = c\<lparr>skipped := documents_skipped sk\<rparr>"
  by (cases sk) (auto simp: cursor_skip_def documents_skipped_def split: if_splits)

lemma manager_find_result:
  assumes c: "convert_id_field h r = (h1, Inr r)"
      and ret: "snd (manager_find eng mgr coll h r many sort_arg rf la) = Inr qs"
  shows "qs =
     \<lparr>qvalue =
        (if many then
           parse_json (VList (map VDict (to_list eng coll
             \<lparr>spec = h1 r, projection = parse_remove_fields rf,
              skipped = documents_skipped (skip mgr),
              limited = (if truthy (limit mgr) then documents_limit (limit mgr)
                         else documents_limit la),
              ordering = (case sort_arg of None \<Rightarrow> [] | Some key \<Rightarrow> [key])\<rparr>)))
         else parse_json (find_one eng coll (h1 r) (parse_remove_fields rf))),
      total = count_documents eng coll (h1 r)\<rparr>"
proof (cases many)
  case False
  then show ?thesis
    using c ret by (simp add: manager_find_def parse_query_filter_def Let_def)
next
  case True
  let ?c0 = "collection_find (h1 r) (parse_remove_fields rf)"
  obtain c1 where c1: "(if truthy (skip mgr) then cursor_skip (skip mgr) ?c0 else Inr ?c0) = Inr c1"
    using ret c True
    by (cases "if truthy (skip mgr) then cursor_skip (skip mgr) ?c0 else Inr ?c0")
       (simp_all add: manager_find_def parse_query_filter_def Let_def)
  obtain c2 where c2: "(if truthy la then cursor_limit la c1 else Inr c1) = Inr c2"
    using ret c c1 True
    by (cases "if truthy la then cursor_limit la c1 else Inr c1")
       (simp_all add: manager_find_def parse_query_filter_def Let_def)
  obtain c3 where c3: "(if truthy (limit mgr) then cursor_limit (limit mgr) c2 else Inr c2) = Inr c3"
    using ret c c1 c2 True
    by (cases "if truthy (limit mgr) then cursor_limit (limit mgr) c2 else Inr c2")
       (simp_all add: manager_find_def parse_query_filter_def Let_def)
  have e1: "c1 = ?c0\<lparr>skipped := documents_skipped (skip mgr)\<rparr>"
    using guarded_skip_first [OF c1] by (simp add: collection_find_def)
  have e2: "c2 = c1\<lparr>limited := (if truthy la then documents_limit la else limited c1)\<rparr>"
    by (rule guarded_limit_general [OF c2])
  have e3: "c3 = c2\<lparr>limited := (if truthy (limit mgr) then documents_limit (limit mgr)
                                   else limited c2)\<rparr>"
    by (rule guarded_limit_general [OF c3])
  have la: "\<not> truthy la \<Longrightarrow> documents_limit la = 0"
    by (cases la) (auto simp: documents_limit_def)
  from ret c c1 c2 c3 True
  have "qs = \<lparr>qvalue = parse_json (VList (map VDict (to_list eng coll
                (case sort_arg of None \<Rightarrow> c3 | Some key \<Rightarrow> cursor_sort [key] c3)))),
      total = count_documents eng coll (h1 r)\<rparr>"
    by (simp add: manager_find_def parse_query_filter_def Let_def)
  then show ?thesis
    using True la
    by (cases sort_arg) (simp_all add: e1 e2 e3 cursor_sort_def collection_find_def)
qed

lemma find_one_some_id:
  "snd (manager_find example_mongo \<lparr>skip = VNone, limit = VNone\<rparr>
          [[(''_id'', VOid some_oid), (''a'', VInt 1)], [(''_id'', VStr some_id), (''a'', VInt 2)]]
          (one_filter [(''_id'', VStr some_id)]) 0 False None [] VNone) =
     Inr \<lparr>qvalue = VDict [(''_id'', VDict [(''$oid'', VStr some_id)]), (''a'', VInt 1)],
          total = 1\<rparr>"
  "snd (manager_find example_mongo \<lparr>skip = VNone, limit = VNone\<rparr>
          [[(''_id'', VOid some_oid), (''a'', VInt 1)], [(''_id'', VStr some_id), (''a'', VInt 2)]]
          (one_filter [(''_id'', VStr some_id)]) 0 True None [] VNone) =
     Inr \<lparr>qvalue = VList [VDict [(''_id'', VDict [(''$oid'', VStr some_id)]), (''a'', VInt 1)]],
          total = 1\<rparr>"
  "snd (manager_find example_mongo \<lparr>skip = VNone, limit = VNone\<rparr>
          [[(''_id'', VOid some_oid), (''a'', VInt 1)], [(''_id'', VStr ''''), (''a'', VInt 2)]]
          (one_filter [(''_id'', VStr '''')]) 0 True None [] VNone) =
     Inr \<lparr>qvalue = VList [VDict [(''_id'', VStr ''''), (''a'', VInt 2)]], total = 1\<rparr>"
  by code_simp+

text \<open>
  C6, amended. A truthy \<^verbatim>\<open>_id\<close> of the filter is converted before the query in
  \<^verbatim>\<open>find\<close>, \<^verbatim>\<open>update\<close> and \<^verbatim>\<open>delete\<close>: if it does not parse, the error
  of the parse (\<^verbatim>\<open>InvalidId\<close> for a malformed text) is what the operation returns to
  its caller, with the store untouched and no query made; if it parses, the driver receives
  the filter with the identifier object: \<^verbatim>\<open>update_one\<close> and \<^verbatim>\<open>delete_one\<close> are
  called with it, and what \<^verbatim>\<open>find\<close> returns is the count, and the rows of the cursor or
  the document of \<^verbatim>\<open>find_one\<close>, for that filter. A falsy \<^verbatim>\<open>_id\<close> is passed on
  without conversion and without an error: the same calls are made with the filter as it is.
\<close>

theorem truthy_identity_is_converted_or_raises:
  "(truthy (dict_get (h r) ''_id'') \<longrightarrow>
      (\<forall>e. object_id (dict_get (h r) ''_id'') = Inl e \<longrightarrow>
           manager_find eng self coll h r many sort_arg remove_fields limit_arg = (h, Inl e) \<and>
           manager_update h r data = (h, Inl e) \<and>
           manager_delete eng coll h r = (h, Inl e)) \<and>
      (\<forall>oid. object_id (dict_get (h r) ''_id'') = Inr oid \<longrightarrow>
           snd (manager_update h r data) =
             Inr [UpdateOne (dict_set (h r) ''_id'' (VOid oid)) [(''$set'', VDict data)]] \<and>
           snd (manager_delete eng coll h r) =
             Inr (delete_one eng coll (dict_set (h r) ''_id'' (VOid oid))) \<and>
           (\<forall>qs. snd (manager_find eng self coll h r many sort_arg remove_fields limit_arg) = Inr qs
              \<longrightarrow> total qs = count_documents eng coll (dict_set (h r) ''_id'' (VOid oid)) \<and>
                  qvalue qs =
                    (if many then
                       parse_json (VList (map VDict (to_list eng coll
                         \<lparr>spec = dict_set (h r) ''_id'' (VOid oid),
                          projection = parse_remove_fields remove_fields,
                          skipped = documents_skipped (skip self),
                          limited = (if truthy (limit self) then documents_limit (limit self)
                                     else documents_limit limit_arg),
                          ordering = (case sort_arg of None \<Rightarrow> [] | Some key \<Rightarrow> [key])\<rparr>)))
                     else parse_json (find_one eng coll (dict_set (h r) ''_id'' (VOid oid))
                                        (parse_remove_fields remove_fields)))) \<and>
           (\<not> many \<longrightarrow>
              snd (manager_find eng self coll h r many sort_arg remove_fields limit_arg) =
                Inr \<lparr>qvalue = parse_json (find_one eng coll (dict_set (h r) ''_id'' (VOid oid))
                                           (parse_remove_fields remove_fields)),
                     total = count_documents eng coll (dict_set (h r) ''_id'' (VOid oid))\<rparr>)) \<and>
      (\<forall>s. dict_get (h r) ''_id'' = VStr s \<longrightarrow>
           object_id (VStr s) = Inl InvalidId \<or> (\<exists>oid. object_id (VStr s) = Inr oid))) \<and>
   (\<not> truthy (dict_get (h r) ''_id'') \<longrightarrow>
      snd (manager_update h r data) = Inr [UpdateOne (h r) [(''$set'', VDict data)]] \<and>
      snd (manager_delete eng coll h r) = Inr (delete_one eng coll (h r)) \<and>
      (\<forall>qs. snd (manager_find eng self coll h r many sort_arg remove_fields limit_arg) = Inr qs
         \<longrightarrow> total qs = count_documents eng coll (h r) \<and>
             qvalue qs =
               (if many then
                  parse_json (VList (map VDict (to_list eng coll
                    \<lparr>spec = h r,
                     projection = parse_remove_fields remove_fields,
                     skipped = documents_skipped (skip self),
                     limited = (if truthy (limit self) then documents_limit (limit self)
                                else documents_limit limit_arg),
                     ordering = (case sort_arg of None \<Rightarrow> [] | Some key \<Rightarrow> [key])\<rparr>)))
                else parse_json (find_one eng coll (h r) (parse_remove_fields remove_fields)))) \<and>
      (\<not> many \<longrightarrow>
         snd (manager_find eng self coll h r many sort_arg remove_fields limit_arg) =
           Inr \<lparr>qvalue = parse_json (find_one eng coll (h r) (parse_remove_fields remove_fields)),
                total = count_documents eng coll (h r)\<rparr>))"
proof (intro conjI impI allI)
  fix e
  assume t: "truthy (dict_get (h r) ''_id'')" and e: "object_id (dict_get (h r) ''_id'') = Inl e"
  then have c: "convert_id_field h r = (h, Inl e)"
    by (simp add: convert_id_field_def)
  show "manager_find eng self coll h r many sort_arg remove_fields limit_arg = (h, Inl e)"
    by (simp add: manager_find_def parse_query_filter_def c)
  show "manager_update h r data = (h, Inl e)" by (simp add: manager_update_def c)
  show "manager_delete eng coll h r = (h, Inl e)" by (simp add: manager_delete_def c)
next
  fix oid
  assume t: "truthy (dict_get (h r) ''_id'')" and o: "object_id (dict_get (h r) ''_id'') = Inr oid"
  then have c: "convert_id_field h r = (h(r := dict_set (h r) ''_id'' (VOid oid)), Inr r)"
    by (simp add: convert_id_field_def)
  show "snd (manager_update h r data) =
             Inr [UpdateOne (dict_set (h r) ''_id'' (VOid oid)) [(''$set'', VDict data)]]"
    using manager_update_calls [OF c] by simp
  show "snd (manager_delete eng coll h r) =
             Inr (delete_one eng coll (dict_set (h r) ''_id'' (VOid oid)))"
    using manager_delete_result [OF c] by simp
  {
    assume "\<not> many"
    then show "snd (manager_find eng self coll h r many sort_arg remove_fields limit_arg) =
        Inr \<lparr>qvalue = parse_json (find_one eng coll (dict_set (h r) ''_id'' (VOid oid))
                                   (parse_remove_fields remove_fields)),
             total = count_documents eng coll (dict_set (h r) ''_id'' (VOid oid))\<rparr>"
      by (simp add: manager_find_def parse_query_filter_def c Let_def)
  }
  fix qs
  assume ret: "snd (manager_find eng self coll h r many sort_arg remove_fields limit_arg) = Inr qs"
  from manager_find_total [OF c ret]
  show "total qs = count_documents eng coll (dict_set (h r) ''_id'' (VOid oid))" by simp
  have "qs = \<lparr>qvalue =
        (if many then
           parse_json (VList (map VDict (to_list eng coll
             \<lparr>spec = dict_set (h r) ''_id'' (VOid oid),
              projection = parse_remove_fields remove_fields,
              skipped = documents_skipped (skip self),
              limited = (if truthy (limit self) then documents_limit (limit self)
                         else documents_limit limit_arg),
              ordering = (case sort_arg of None \<Rightarrow> [] | Some key \<Rightarrow> [key])\<rparr>)))
         else parse_json (find_one eng coll (dict_set (h r) ''_id'' (VOid oid))
                            (parse_remove_fields remove_fields))),
      total = count_documents eng coll (dict_set (h r) ''_id'' (VOid oid))\<rparr>"
    using manager_find_result [OF c ret] by simp
  then show "qvalue qs =
        (if many then
           parse_json (VList (map VDict (to_list eng coll
             \<lparr>spec = dict_set (h r) ''_id'' (VOid oid),
              projection = parse_remove_fields remove_fields,
              skipped = documents_skipped (skip self),
              limited = (if truthy (limit self) then documents_limit (limit self)
                         else documents_limit limit_arg),
              ordering = (case sort_arg of None \<Rightarrow> [] | Some key \<Rightarrow> [key])\<rparr>)))
         else parse_json (find_one eng coll (dict_set (h r) ''_id'' (VOid oid))
                            (parse_remove_fields remove_fields)))"
    by simp
next
  fix s
  show "object_id (VStr s) = Inl InvalidId \<or> (\<exists>oid. object_id (VStr s) = Inr oid)"
    by (simp split: option.splits)
next
  assume f: "\<not> truthy (dict_get (h r) ''_id'')"
  then have c: "convert_id_field h r = (h, Inr r)"
    by (simp add: convert_id_field_def)
  show "snd (manager_update h r data) = Inr [UpdateOne (h r) [(''$set'', VDict data)]]"
    by (rule manager_update_calls [OF c])
  show "snd (manager_delete eng coll h r) = Inr (delete_one eng coll (h r))"
    by (rule manager_delete_result [OF c])
  {
    assume "\<not> many"
    then show "snd (manager_find eng self coll h r many sort_arg remove_fields limit_arg) =
        Inr \<lparr>qvalue = parse_json (find_one eng coll (h r) (parse_remove_fields remove_fields)),
             total = count_documents eng coll (h r)\<rparr>"
      by (simp add: manager_find_def parse_query_filter_def c Let_def)
  }
  fix qs
  assume ret: "snd (manager_find eng self coll h r many sort_arg remove_fields limit_arg) = Inr qs"
  from manager_find_total [OF c ret]
  show "total qs = count_documents eng coll (h r)" .
  from manager_find_result [OF c ret]
  show "qvalue qs =
        (if many then
           parse_json (VList (map VDict (to_list eng coll
             \<lparr>spec = h r,
              projection = parse_remove_fields remove_fields,
              skipped = documents_skipped (skip self),
              limited = (if truthy (limit self) then documents_limit (limit self)
                         else documents_limit limit_arg),
              ordering = (case sort_arg of None \<Rightarrow> [] | Some key \<Rightarrow> [key])\<rparr>)))
         else parse_json (find_one eng coll (h r) (parse_remove_fields remove_fields)))"
    by simp
qed

theorem truthy_identity_is_converted_or_raises_witness:
  "manager_find example_mongo \<lparr>skip = VNone, limit = VNone\<rparr> []
       (one_filter [(''_id'', VStr ''not-an-id'')]) 0 True None [] VNone =
     (one_filter [(''_id'', VStr ''not-an-id'')], Inl InvalidId) \<and>
   manager_update (one_filter [(''_id'', VStr ''not-an-id'')]) 0 [(''a'', VInt 1)] =
     (one_filter [(''_id'', VStr ''not-an-id'')], Inl InvalidId) \<and>
   manager_delete example_mongo [] (one_filter [(''_id'', VStr ''not-an-id'')]) 0 =
     (one_filter [(''_id'', VStr ''not-an-id'')], Inl InvalidId) \<and>
   snd (manager_update (one_filter [(''_id'', VStr some_id)]) 0 [(''a'', VInt 1)]) =
     Inr [UpdateOne [(''_id'', VOid some_oid)] [(''$set'', VDict [(''a'', VInt 1)])]] \<and>
   snd (manager_delete example_mongo [] (one_filter [(''_id'', VStr some_id)]) 0) =
     Inr (delete_one example_mongo [] [(''_id'', VOid some_oid)]) \<and>
   snd (manager_delete example_mongo [] (one_filter [(''_id'', VStr '''')]) 0) =
     Inr (delete_one example_mongo [] [(''_id'', VStr '''')]) \<and>
   VDict [(''_id'', VDict [(''$oid'', VStr some_id)]), (''a'', VInt 1)] =
     parse_json (find_one example_mongo
       [[(''_id'', VOid some_oid), (''a'', VInt 1)], [(''_id'', VStr some_id), (''a'', VInt 2)]]
       [(''_id'', VOid some_oid)] None) \<and>
   VList [VDict [(''_id'', VDict [(''$oid'', VStr some_id)]), (''a'', VInt 1)]] =
     parse_json (VList (map VDict (to_list example_mongo
       [[(''_id'', VOid some_oid), (''a'', VInt 1)], [(''_id'', VStr some_id), (''a'', VInt 2)]]
       \<lparr>spec = [(''_id'', VOid some_oid)], projection = None, skipped = 0, limited = 0,
        ordering = []\<rparr>))) \<and>
   VList [VDict [(''_id'', VStr ''''), (''a'', VInt 2)]] =
     parse_json (VList (map VDict (to_list example_mongo
       [[(''_id'', VOid some_oid), (''a'', VInt 1)], [(''_id'', VStr ''''), (''a'', VInt 2)]]
       \<lparr>spec = [(''_id'', VStr '''')], projection = None, skipped = 0, limited = 0,
        ordering = []\<rparr>)))"
proof -
  let ?mgr = "\<lparr>skip = VNone, limit = VNone\<rparr>"
  let ?docs = "[[(''_id'', VOid some_oid), (''a'', VInt 1)],
                [(''_id'', VStr some_id), (''a'', VInt 2)]]"
  let ?docs' = "[[(''_id'', VOid some_oid), (''a'', VInt 1)],
                 [(''_id'', VStr ''''), (''a'', VInt 2)]]"
  have bad: "truthy (dict_get (one_filter [(''_id'', VStr ''not-an-id'')] 0) ''_id'')"
      "object_id (dict_get (one_filter [(''_id'', VStr ''not-an-id'')] 0) ''_id'') = Inl InvalidId"
    by (simp_all add: get_some_id)
  have good: "truthy (dict_get (one_filter [(''_id'', VStr some_id)] 0) ''_id'')"
      "object_id (dict_get (one_filter [(''_id'', VStr some_id)] 0) ''_id'') = Inr some_oid"
    by (simp_all add: get_some_id object_id_some_id del: object_id.simps) (simp add: some_id_def)
  have falsy: "\<not> truthy (dict_get (one_filter [(''_id'', VStr '''')] 0) ''_id'')"
    by (simp add: get_some_id)
  have lim: "documents_limit VNone = 0" "documents_skipped VNone = 0"
    "parse_remove_fields [] = None" "truthy VNone = False"
    by (simp_all add: documents_limit_def documents_skipped_def parse_remove_fields_def)
  have set_id: "dict_set (one_filter [(''_id'', VStr some_id)] 0) ''_id'' (VOid some_oid) =
      [(''_id'', VOid some_oid)]"
    by (simp add: one_filter_at dict_set_id)
  note raised = truthy_identity_is_converted_or_raises
      [of "one_filter [(''_id'', VStr ''not-an-id'')]" 0
        example_mongo ?mgr "[]" True None "[]" VNone "[(''a'', VInt 1)]",
       THEN conjunct1, rule_format, OF bad(1), THEN conjunct1, rule_format, OF bad(2)]
  note converted = truthy_identity_is_converted_or_raises
      [of "one_filter [(''_id'', VStr some_id)]" 0
        example_mongo ?mgr "[]" True None "[]" VNone "[(''a'', VInt 1)]",
       THEN conjunct1, rule_format, OF good(1), THEN conjunct2, THEN conjunct1, rule_format,
       OF good(2), unfolded set_id]
  note passed = truthy_identity_is_converted_or_raises
      [of "one_filter [(''_id'', VStr '''')]" 0
        example_mongo ?mgr "[]" True None "[]" VNone "[(''a'', VInt 1)]",
       THEN conjunct2, rule_format, OF falsy, unfolded one_filter_at]
  note found_one = truthy_identity_is_converted_or_raises
      [of "one_filter [(''_id'', VStr some_id)]" 0
        example_mongo ?mgr ?docs False None "[]" VNone "[]",
       THEN conjunct1, rule_format, OF good(1), THEN conjunct2, THEN conjunct1, rule_format,
       OF good(2), unfolded set_id, THEN conjunct2, THEN conjunct2, THEN conjunct1, rule_format,
       OF find_one_some_id(1), THEN conjunct2]
  note found_many = truthy_identity_is_converted_or_raises
      [of "one_filter [(''_id'', VStr some_id)]" 0
        example_mongo ?mgr ?docs True None "[]" VNone "[]",
       THEN conjunct1, rule_format, OF good(1), THEN conjunct2, THEN conjunct1, rule_format,
       OF good(2), unfolded set_id, THEN conjunct2, THEN conjunct2, THEN conjunct1, rule_format,
       OF find_one_some_id(2), THEN conjunct2]
  note found_falsy = truthy_identity_is_converted_or_raises
      [of "one_filter [(''_id'', VStr '''')]" 0
        example_mongo ?mgr ?docs' True None "[]" VNone "[]",
       THEN conjunct2, rule_format, OF falsy, unfolded one_filter_at,
       THEN conjunct2, THEN conjunct2, THEN conjunct1, rule_format,
       OF find_one_some_id(3), THEN conjunct2]
  show ?thesis
    using raised converted [THEN conjunct1] converted [THEN conjunct2, THEN conjunct1]
      passed [THEN conjunct2, THEN conjunct1] found_one found_many found_falsy
    by (simp add: lim)
qed

section \<open>The order of the checks in \<^verbatim>\<open>prepare\<close>\<close>

lemma check_permissions_trace:
  "check_permissions perms req self i =
     (map HasPermission
        [i..<i + min (length perms)
                 (Suc (length (takeWhile (\<lambda>p. has_permission p req self) perms)))],
      if length (takeWhile (\<lambda>p. has_permission p req self) perms) < length perms
      then Some \<lparr>status = 403,
                 body = message (perms ! length (takeWhile (\<lambda>p. has_permission p req self) perms))\<rparr>
      else None)"
proof (induction perms arbitrary: i)
  case Nil
  then show ?case by simp
next
  case (Cons p perms)
  show ?case
  proof (cases "has_permission p req self")
    case True
    then show ?thesis
      using Cons.IH [of "Suc i"] by (simp add: upt_conv_Cons del: upt_Suc)
  next
    case False
    then show ?thesis by (simp add: upt_conv_Cons del: upt_Suc)
  qed
qed

text \<open>
  C2, as the claim states it, fails: for a request that does not authenticate and is not
  permitted either, the permission check is the one call made and the answer is 403, not
  401; for a request that is permitted and does not authenticate, the permission check is
  called before the authenticator.
\<close>

theorem permission_runs_before_authentication:
  "\<not> authenticate (authentication_class closed_view) \<lparr>uri = ''/r'', query_arguments = []\<rparr>
       (set_pagination closed_view []) \<and>
   prepare closed_view \<lparr>uri = ''/r'', query_arguments = []\<rparr> =
     ([HasPermission 0], Finished \<lparr>status = 403, body = VStr ''forbidden''\<rparr>) \<and>
   prepare members_view \<lparr>uri = ''/r'', query_arguments = []\<rparr> =
     ([HasPermission 0, Authenticate], Finished \<lparr>status = 401, body = VStr ''unauthorized''\<rparr>)"
  by (simp add: prepare_def extract_query_args_def closed_view_def members_view_def
      check_authentication_def)

text \<open>
  C2, amended. For a request whose query string parses, \<^verbatim>\<open>prepare\<close> first calls
  the permission checks in their order. The first one that refuses ends the request with
  403 and its message, and the authenticator is not called. Only when every permission
  check has passed is the authenticator called, last; its refusal ends the request with 401
  and its message, otherwise the request goes on to its method.
\<close>

theorem prepare_checks_permissions_then_authentication:
  assumes "extract_query_args req = Inr args"
  shows "(let self = set_pagination v args;
              perms = permissions_classes v;
              passed = takeWhile (\<lambda>p. has_permission p req self) perms
          in if length passed < length perms then
               prepare v req =
                 (map HasPermission [0..<Suc (length passed)],
                  Finished \<lparr>status = 403, body = message (perms ! length passed)\<rparr>)
             else if authenticate (authentication_class v) req self then
               prepare v req = (map HasPermission [0..<length perms] @ [Authenticate], Continue self)
             else
               prepare v req =
                 (map HasPermission [0..<length perms] @ [Authenticate],
                  Finished \<lparr>status = 401, body = unauthorized_message (authentication_class v)\<rparr>))"
proof -
  let ?self = "set_pagination v args"
  let ?perms = "permissions_classes v"
  let ?passed = "takeWhile (\<lambda>p. has_permission p req ?self) ?perms"
  have le: "length ?passed \<le> length ?perms"
    by (rule length_takeWhile_le)
  show ?thesis
  proof (cases "length ?passed < length ?perms")
    case True
    then have "min (length ?perms) (Suc (length ?passed)) = Suc (length ?passed)"
      by simp
    with True assms show ?thesis
      by (simp add: prepare_def Let_def check_permissions_trace del: upt_Suc)
  next
    case False
    with le have "min (length ?perms) (Suc (length ?passed)) = length ?perms"
      by simp
    with False assms show ?thesis
      by (simp add: prepare_def Let_def check_permissions_trace check_authentication_def
          del: upt_Suc)
  qed
qed

theorem prepare_checks_permissions_then_authentication_witness:
  "prepare open_view \<lparr>uri = ''/r?page=3'', query_arguments = [(''page'', [Utf8 ''3''])]\<rparr> =
     ([HasPermission 0, Authenticate],
      Continue \<lparr>query_filter = [], page = VInt 3, page_size = VInt 20,
                model_manager = \<lparr>skip = VInt 3, limit = VInt 20\<rparr>\<rparr>) \<and>
   prepare closed_view \<lparr>uri = ''/r?page=3'', query_arguments = [(''page'', [Utf8 ''3''])]\<rparr> =
     ([HasPermission 0], Finished \<lparr>status = 403, body = VStr ''forbidden''\<rparr>) \<and>
   prepare members_view \<lparr>uri = ''/r?page=3'', query_arguments = [(''page'', [Utf8 ''3''])]\<rparr> =
     ([HasPermission 0, Authenticate], Finished \<lparr>status = 401, body = VStr ''unauthorized''\<rparr>)"
proof -
  have args: "extract_query_args \<lparr>uri = ''/r?page=3'', query_arguments = [(''page'', [Utf8 ''3''])]\<rparr>
      = Inr [(''page'', VInt 3)]"
    by code_simp
  have self: "set_pagination v [(''page'', VInt 3)] =
      \<lparr>query_filter = [], page = VInt 3, page_size = page_size_attr v,
       model_manager = \<lparr>skip = VInt 3, limit = page_size_attr v\<rparr>\<rparr>" for v
    by (simp add: set_pagination_def dict_pop_def)
  show ?thesis
    using prepare_checks_permissions_then_authentication [OF args, of open_view]
      prepare_checks_permissions_then_authentication [OF args, of closed_view]
      prepare_checks_permissions_then_authentication [OF args, of members_view]
    by (simp add: self Let_def) (simp add: open_view_def closed_view_def members_view_def)
qed

section \<open>The list endpoint\<close>

lemma length_insert_by: "length (insert_by le x xs) = Suc (length xs)"
  by (induction xs) auto

lemma length_sort_by: "length (sort_by le xs) = length xs"
  by (induction xs) (auto simp: sort_by_def length_insert_by)

lemma num_pages_none: "0 < ps \<Longrightarrow> 0 \<le> t \<Longrightarrow> (num_pages ps t < 1) = (t = 0)"
proof -
  assume ps: "0 < ps" and t: "0 \<le> t"
  have "(0 < (t + ps - 1) div ps) = (ps \<le> t + ps - 1)"
    using ps by (rule pos_imp_zdiv_pos_iff)
  then show ?thesis
    using t by (auto simp: num_pages_def)
qed

lemma first_page:
  "paginate_response page_link v req self \<lparr>qvalue = VList rows, total = n\<rparr> 1 VNone =
     (case page_at (pagination_class v) rows (page_size self) (int n) 1 of
        Inl e \<Rightarrow>
          if e = EmptyPage \<or> e = ValueError then Inr (paginated_response n None None [])
          else Inl e
      | Inr pg \<Rightarrow>
          Inr (paginated_response n
                 (if has_next_of (pagination_class v) pg
                  then Some (page_link (uri req) (next_page_number_of (pagination_class v) pg))
                  else None)
                 None (object_list pg)))"
  by (simp add: paginate_response_def Let_def split: sum.splits)

lemma spec_first_page:
  assumes "0 < ps"
  shows "page_at spec_paginator rows (VInt ps) (int n) 1 =
           (if n = 0 then Inl EmptyPage
            else Inr \<lparr>object_list = rows, number = 1, per_page = ps, total_count = int n\<rparr>)"
  using assms num_pages_none [of ps "int n"] by (auto simp: spec_paginator_def)

lemma guarded_skip:
  "(if truthy sk then cursor_skip sk c else Inr c) = Inr c' \<Longrightarrow>
   skipped c = 0 \<Longrightarrow> c' = c\<lparr>skipped := documents_skipped sk\<rparr>"
  by (cases sk) (auto simp: cursor_skip_def documents_skipped_def split: if_splits)

lemma guarded_limit:
  "(if truthy lm then cursor_limit lm c else Inr c) = Inr c' \<Longrightarrow>
   limited c = 0 \<Longrightarrow> c' = c\<lparr>limited := documents_limit lm\<rparr>"
  by (cases lm) (auto simp: cursor_limit_def documents_limit_def split: if_splits)

lemma manager_find_many:
  assumes c: "convert_id_field h r = (h1, Inr r)"
      and ret: "snd (manager_find eng mgr coll h r True (Some (''_id'', - 1)) rf VNone) = Inr qs"
  shows "qs = \<lparr>qvalue = VList (map (\<lambda>d. parse_json (VDict (project eng (parse_remove_fields rf) d)))
                  (apply_limit (documents_limit (limit mgr))
                     (drop (documents_skipped (skip mgr))
                        (sort_by (key_le eng (''_id'', - 1)) (filter (matches eng (h1 r)) coll))))),
              total = count_documents eng coll (h1 r)\<rparr>"
proof -
  let ?c0 = "collection_find (h1 r) (parse_remove_fields rf)"
  obtain c1 where c1: "(if truthy (skip mgr) then cursor_skip (skip mgr) ?c0 else Inr ?c0) = Inr c1"
    using ret c
    by (cases "if truthy (skip mgr) then cursor_skip (skip mgr) ?c0 else Inr ?c0")
       (simp_all add: manager_find_def parse_query_filter_def Let_def)
  obtain c3 where c3: "(if truthy (limit mgr) then cursor_limit (limit mgr) c1 else Inr c1) = Inr c3"
    using ret c c1
    by (cases "if truthy (limit mgr) then cursor_limit (limit mgr) c1 else Inr c1")
       (simp_all add: manager_find_def parse_query_filter_def Let_def)
  have e1: "c1 = ?c0\<lparr>skipped := documents_skipped (skip mgr)\<rparr>"
    using guarded_skip [OF c1] by (simp add: collection_find_def)
  have e3: "c3 = c1\<lparr>limited := documents_limit (limit mgr)\<rparr>"
    using guarded_limit [OF c3] by (simp add: e1 collection_find_def)
  from ret c c1 c3 have "qs = \<lparr>qvalue = parse_json (VList (map VDict (to_list eng coll (cursor_sort [(''_id'', - 1)] c3)))),
      total = count_documents eng coll (h1 r)\<rparr>"
    by (simp add: manager_find_def parse_query_filter_def Let_def)
  then show ?thesis
    by (simp add: e1 e3 to_list_def cursor_sort_def collection_find_def comp_def)
qed

lemma prepare_continue:
  assumes "prepare v req = (events, Continue self)"
  shows "model_manager self = \<lparr>skip = page self, limit = page_size self\<rparr>"
proof -
  have sp: "model_manager (set_pagination v args) =
      \<lparr>skip = page (set_pagination v args), limit = page_size (set_pagination v args)\<rparr>" for args
    by (simp add: set_pagination_def split: prod.splits)
  from assms show ?thesis
    by (auto simp: prepare_def Let_def sp check_authentication_def
        split: sum.splits prod.splits option.splits if_splits)
qed

lemma view_list_answers:
  assumes r: "view_list page_link v eng coll req self = Inr resp"
  shows "Inr resp =
     (case page_at (pagination_class v)
             (rows_after_skip v eng coll (issued_filter (query_filter self))
                (documents_skipped (skip (model_manager self)))
                (documents_limit (limit (model_manager self))))
             (page_size self)
             (int (count_documents eng coll (issued_filter (query_filter self)))) 1 of
        Inl e \<Rightarrow>
          if e = EmptyPage \<or> e = ValueError
          then Inr \<lparr>status = 200,
                    body = VDict (paginated_response
                      (count_documents eng coll (issued_filter (query_filter self))) None None [])\<rparr>
          else Inl e
      | Inr pg \<Rightarrow>
          Inr \<lparr>status = 200,
               body = VDict (paginated_response
                 (count_documents eng coll (issued_filter (query_filter self)))
                 (if has_next_of (pagination_class v) pg
                  then Some (page_link (uri req) (next_page_number_of (pagination_class v) pg))
                  else None)
                 None (object_list pg))\<rparr>)"
proof -
  let ?h = "one_filter (query_filter self)"
  let ?find = "manager_find eng (model_manager self) coll ?h 0 True (Some (''_id'', - 1))
                 (public_fields v) VNone"
  obtain h1 res where c: "convert_id_field ?h 0 = (h1, res)"
    by (cases "convert_id_field ?h 0")
  obtain qs where qs: "snd ?find = Inr qs"
    using r by (cases "snd ?find") (auto simp: view_list_def get_queryset_def split: prod.splits)
  have "res = Inr 0"
  proof (cases res)
    case (Inl e)
    with c qs show ?thesis by (simp add: manager_find_def parse_query_filter_def)
  next
    case (Inr r1)
    with c show ?thesis using convert_id_field_ref by blast
  qed
  with c have c': "convert_id_field ?h 0 = (h1, Inr 0)" by simp
  have qf: "issued_filter (query_filter self) = h1 0"
    by (simp add: issued_filter_def c')
  have fst: "fst ?find = h1"
    by (simp add: manager_find_def parse_query_filter_def c' Let_def split: sum.splits)
  note shape = manager_find_many [OF c' qs]
  have "view_list page_link v eng coll req self =
      (case paginate_response page_link v req (self\<lparr>query_filter := h1 0\<rparr>) qs 1 VNone of
         Inl e \<Rightarrow> Inl e | Inr d \<Rightarrow> Inr \<lparr>status = 200, body = VDict d\<rparr>)"
    using qs fst by (cases ?find) (simp add: view_list_def get_queryset_def)
  then have "view_list page_link v eng coll req self =
     (case page_at (pagination_class v)
             (rows_after_skip v eng coll (issued_filter (query_filter self))
                (documents_skipped (skip (model_manager self)))
                (documents_limit (limit (model_manager self))))
             (page_size self)
             (int (count_documents eng coll (issued_filter (query_filter self)))) 1 of
        Inl e \<Rightarrow>
          if e = EmptyPage \<or> e = ValueError
          then Inr \<lparr>status = 200,
                    body = VDict (paginated_response
                      (count_documents eng coll (issued_filter (query_filter self))) None None [])\<rparr>
          else Inl e
      | Inr pg \<Rightarrow>
          Inr \<lparr>status = 200,
               body = VDict (paginated_response
                 (count_documents eng coll (issued_filter (query_filter self)))
                 (if has_next_of (pagination_class v) pg
                  then Some (page_link (uri req) (next_page_number_of (pagination_class v) pg))
                  else None)
                 None (object_list pg))\<rparr>)"
    by (simp add: shape first_page qf rows_after_skip_def split: sum.splits)
  with r show ?thesis by simp
qed

lemma rows_of_none:
  "count_documents eng coll qf = 0 \<Longrightarrow> rows_after_skip v eng coll qf k l = []"
  by (simp add: count_documents_def rows_after_skip_def sort_by_def apply_limit_def)

section \<open>Pages 0 and 100 of 45 documents by 20\<close>

lemma manager_find_rows:
  assumes c: "convert_id_field (one_filter (query_filter self)) 0 = (h1, Inr 0)"
      and m: "model_manager self = \<lparr>skip = VInt p, limit = VInt ps\<rparr>"
      and p: "0 \<le> p"
  shows "manager_find eng (model_manager self) coll (one_filter (query_filter self)) 0 True
           (Some (''_id'', - 1)) (public_fields v) VNone =
         (h1, Inr \<lparr>qvalue = VList (rows_after_skip v eng coll (h1 0) (nat p) ps),
                   total = count_documents eng coll (h1 0)\<rparr>)"
  using p
  by (simp add: manager_find_def parse_query_filter_def c m Let_def collection_find_def
      cursor_skip_def cursor_limit_def cursor_sort_def to_list_def apply_limit_def
      rows_after_skip_def comp_def)

lemma view_list_spec_response:
  assumes c: "convert_id_field (one_filter (query_filter self)) 0 = (h1, Inr 0)"
      and m: "model_manager self = \<lparr>skip = VInt p, limit = VInt ps\<rparr>"
      and s: "page_size self = VInt ps"
      and p: "0 \<le> p" and ps: "0 < ps"
      and d: "pagination_class v = spec_paginator"
  shows "view_list page_link v eng coll req self =
     Inr \<lparr>status = 200,
          body = VDict (paginated_response (count_documents eng coll (h1 0))
            (if ps < int (count_documents eng coll (h1 0))
             then Some (page_link (uri req) 2) else None)
            None (rows_after_skip v eng coll (h1 0) (nat p) ps))\<rparr>"
proof (cases "count_documents eng coll (h1 0) = 0")
  case True
  then show ?thesis
    using ps spec_first_page [OF ps, of "[]" 0]
    by (simp add: view_list_def get_queryset_def manager_find_rows [OF c m p] first_page s d
        rows_of_none)
next
  case False
  then show ?thesis
    using ps
    by (simp add: view_list_def get_queryset_def manager_find_rows [OF c m p] first_page s d
        spec_first_page)
       (simp add: spec_paginator_def has_next_def next_page_number_def)
qed

lemma length_rows_after_skip:
  "0 < l \<Longrightarrow> length (rows_after_skip v eng coll qf k l) =
     min (nat l) (count_documents eng coll qf - k)"
  by (simp add: rows_after_skip_def count_documents_def length_sort_by apply_limit_def)

text \<open>
  C4, as the claim states it, fails for page 0: with 45 documents and the page size 20, the
  request for page 0 is answered with 20 rows, not with an empty list.
\<close>

theorem page_0_of_45_lists_20_rows:
  "count_documents example_mongo (numbered_docs 45) [] = 45 \<and>
   page_size_attr open_view = VInt 20 \<and>
   map_option length
     (results_of (snd (execute_get_list link_to open_view example_mongo (numbered_docs 45)
        \<lparr>uri = ''/r?page=0'', query_arguments = [(''page'', [Utf8 ''0''])]\<rparr>))) = Some 20"
  by code_simp

text \<open>
  C4, amended. For a list request that gets through \<^verbatim>\<open>prepare\<close> with the page size
  20, the paginator of the specification and a filter matching 45 documents: page 100 is
  answered with status 200 and an empty list of results; page 0 is answered with status 200
  and the first 20 rows (page 0 passes over nothing); in both cases the answer is a
  response, so no exception of the pagination escapes.
\<close>

theorem list_of_45_by_20_at_pages_0_and_100:
  assumes "prepare v req = (events, Continue self)"
      and "pagination_class v = spec_paginator"
      and "page_size self = VInt 20"
      and "snd (convert_id_field (one_filter (query_filter self)) 0) = Inr 0"
      and "count_documents eng coll (issued_filter (query_filter self)) = 45"
  shows "(page self = VInt 100 \<longrightarrow>
            view_list page_link v eng coll req self =
              Inr \<lparr>status = 200,
                   body = VDict (paginated_response 45 (Some (page_link (uri req) 2)) None [])\<rparr>) \<and>
         (page self = VInt 0 \<longrightarrow>
            view_list page_link v eng coll req self =
              Inr \<lparr>status = 200,
                   body = VDict (paginated_response 45 (Some (page_link (uri req) 2)) None
                     (rows_after_skip v eng coll (issued_filter (query_filter self)) 0 20))\<rparr> \<and>
            length (rows_after_skip v eng coll (issued_filter (query_filter self)) 0 20) = 20)"
proof -
  let ?h1 = "fst (convert_id_field (one_filter (query_filter self)) 0)"
  have c: "convert_id_field (one_filter (query_filter self)) 0 = (?h1, Inr 0)"
    using assms(4) by (metis prod.collapse)
  have qf: "issued_filter (query_filter self) = ?h1 0"
    by (simp add: issued_filter_def)
  have n: "count_documents eng coll (?h1 0) = 45"
    using assms(5) by (simp add: qf)
  have m: "model_manager self = \<lparr>skip = VInt p, limit = VInt 20\<rparr>" if "page self = VInt p" for p
    using prepare_continue [OF assms(1)] assms(3) that by simp
  have answer: "view_list page_link v eng coll req self =
      Inr \<lparr>status = 200,
           body = VDict (paginated_response 45 (Some (page_link (uri req) 2)) None
             (rows_after_skip v eng coll (?h1 0) (nat p) 20))\<rparr>"
    if "page self = VInt p" and "0 \<le> p" for p
    using view_list_spec_response [OF c m [OF that(1)] assms(3) that(2) _ assms(2),
        of page_link eng coll req]
    by (simp add: n)
  have none: "rows_after_skip v eng coll (?h1 0) 100 20 = []"
    using length_rows_after_skip [of 20 v eng coll "?h1 0" 100] by (simp add: n)
  have twenty: "length (rows_after_skip v eng coll (?h1 0) 0 20) = 20"
    using length_rows_after_skip [of 20 v eng coll "?h1 0" 0] by (simp add: n)
  show ?thesis
    using answer [of 100] answer [of 0] none twenty by (simp add: qf)
qed

theorem list_of_45_by_20_at_pages_0_and_100_witness:
  "view_list link_to open_view example_mongo (numbered_docs 45)
     \<lparr>uri = ''/r?page=100'', query_arguments = [(''page'', [Utf8 ''100''])]\<rparr>
     \<lparr>query_filter = [], page = VInt 100, page_size = VInt 20,
      model_manager = \<lparr>skip = VInt 100, limit = VInt 20\<rparr>\<rparr> =
     Inr \<lparr>status = 200,
          body = VDict (paginated_response 45 (Some ''/r?page=2'') None [])\<rparr> \<and>
   view_list link_to open_view example_mongo (numbered_docs 45)
     \<lparr>uri = ''/r?page=0'', query_arguments = [(''page'', [Utf8 ''0''])]\<rparr>
     \<lparr>query_filter = [], page = VInt 0, page_size = VInt 20,
      model_manager = \<lparr>skip = VInt 0, limit = VInt 20\<rparr>\<rparr> =
     Inr \<lparr>status = 200,
          body = VDict (paginated_response 45 (Some ''/r?page=2'') None
            (rows_after_skip open_view example_mongo (numbered_docs 45) [] 0 20))\<rparr> \<and>
   length (rows_after_skip open_view example_mongo (numbered_docs 45) [] 0 20) = 20"
proof -
  let ?r100 = "\<lparr>uri = ''/r?page=100'', query_arguments = [(''page'', [Utf8 ''100''])]\<rparr>"
  let ?s100 = "\<lparr>query_filter = [], page = VInt 100, page_size = VInt 20,
      model_manager = \<lparr>skip = VInt 100, limit = VInt 20\<rparr>\<rparr>"
  let ?r0 = "\<lparr>uri = ''/r?page=0'', query_arguments = [(''page'', [Utf8 ''0''])]\<rparr>"
  let ?s0 = "\<lparr>query_filter = [], page = VInt 0, page_size = VInt 20,
      model_manager = \<lparr>skip = VInt 0, limit = VInt 20\<rparr>\<rparr>"
  have p100: "prepare open_view ?r100 = ([HasPermission 0, Authenticate], Continue ?s100)"
    by code_simp
  have p0: "prepare open_view ?r0 = ([HasPermission 0, Authenticate], Continue ?s0)"
    by code_simp
  have pc: "pagination_class open_view = spec_paginator"
    by (simp add: open_view_def)
  have cv: "snd (convert_id_field (one_filter []) 0) = Inr 0"
    by (simp add: convert_id_field_def one_filter_def dict_get_def)
  have iss: "issued_filter [] = []"
    by (simp add: issued_filter_def convert_id_field_def one_filter_def dict_get_def)
  have n: "count_documents example_mongo (numbered_docs 45) (issued_filter []) = 45"
    by code_simp
  have l100: "link_to ''/r?page=100'' 2 = ''/r?page=2''" by code_simp
  have l0: "link_to ''/r?page=0'' 2 = ''/r?page=2''" by code_simp
  show ?thesis
    using list_of_45_by_20_at_pages_0_and_100 [OF p100 pc, of example_mongo "numbered_docs 45" link_to]
      list_of_45_by_20_at_pages_0_and_100 [OF p0 pc, of example_mongo "numbered_docs 45" link_to]
      cv n
    by (simp add: iss l100 l0)
qed

section \<open>The navigation links of a list answer\<close>

text \<open>
  C9. Whatever page a list request names, when it gets through \<^verbatim>\<open>prepare\<close> and
  \<^verbatim>\<open>list\<close> answers, the answer is built from page 1 of the pagination class: the
  paginator is asked for page number 1, the \<^verbatim>\<open>previous\<close> field of the answer is
  null, and the requested page only decides how many documents the query passes over, as a
  count of documents. With the paginator of the specification and a positive integer page
  size the \<^verbatim>\<open>next\<close> field is the link to page 2 exactly when the total exceeds the
  page size, and null otherwise. The link is made by the handler's link builder
  (\<open>link_to\<close> for the handler as it is written).
\<close>

theorem list_navigation_is_that_of_page_one:
  assumes "prepare v req = (events, Continue self)"
      and "view_list page_link v eng coll req self = Inr resp"
  shows "(let qf = issued_filter (query_filter self);
              n = count_documents eng coll qf;
              rows = rows_after_skip v eng coll qf (documents_skipped (page self))
                       (documents_limit (page_size self))
          in (case page_at (pagination_class v) rows (page_size self) (int n) 1 of
                Inl e \<Rightarrow>
                  resp = \<lparr>status = 200,
                          body = VDict [(''count'', VInt (int n)), (''next'', VNone),
                                        (''previous'', VNone), (''results'', VList [])]\<rparr>
              | Inr pg \<Rightarrow>
                  resp = \<lparr>status = 200,
                          body = VDict
                            [(''count'', VInt (int n)),
                             (''next'',
                              if has_next_of (pagination_class v) pg
                              then VStr (page_link (uri req)
                                           (next_page_number_of (pagination_class v) pg))
                              else VNone),
                             (''previous'', VNone),
                             (''results'', VList (object_list pg))]\<rparr>) \<and>
             (\<forall>ps. pagination_class v = spec_paginator \<and> page_size self = VInt ps \<and> 0 < ps \<longrightarrow>
                resp = \<lparr>status = 200,
                        body = VDict
                          [(''count'', VInt (int n)),
                           (''next'', if ps < int n then VStr (page_link (uri req) 2) else VNone),
                           (''previous'', VNone),
                           (''results'', VList rows)]\<rparr>))"
proof -
  let ?qf = "issued_filter (query_filter self)"
  let ?n = "count_documents eng coll ?qf"
  let ?rows = "rows_after_skip v eng coll ?qf (documents_skipped (page self))
                 (documents_limit (page_size self))"
  have m: "skip (model_manager self) = page self" "limit (model_manager self) = page_size self"
    using prepare_continue [OF assms(1)] by simp_all
  note answer = view_list_answers [OF assms(2), unfolded m]
  have any: "case page_at (pagination_class v) ?rows (page_size self) (int ?n) 1 of
      Inl e \<Rightarrow> resp = \<lparr>status = 200, body = VDict (paginated_response ?n None None [])\<rparr>
    | Inr pg \<Rightarrow>
        resp = \<lparr>status = 200,
                body = VDict (paginated_response ?n
                  (if has_next_of (pagination_class v) pg
                   then Some (page_link (uri req) (next_page_number_of (pagination_class v) pg))
                   else None)
                  None (object_list pg))\<rparr>"
    using answer by (auto split: sum.splits if_splits)
  have spec: "resp = \<lparr>status = 200,
                      body = VDict (paginated_response ?n
                        (if ps < int ?n then Some (page_link (uri req) 2) else None)
                        None ?rows)\<rparr>"
    if d: "pagination_class v = spec_paginator" and s: "page_size self = VInt ps" and ps: "0 < ps"
    for ps
  proof (cases "?n = 0")
    case True
    then show ?thesis
      using any ps spec_first_page [OF ps, of ?rows 0] rows_of_none [OF True, of v]
      by (simp add: d s)
  next
    case False
    then show ?thesis
      using any ps spec_first_page [OF ps, of ?rows ?n]
      by (simp add: d s) (simp add: spec_paginator_def has_next_def next_page_number_def)
  qed
  from any have any': "case page_at (pagination_class v) ?rows (page_size self) (int ?n) 1 of
      Inl e \<Rightarrow> resp = \<lparr>status = 200,
                          body = VDict [(''count'', VInt (int ?n)), (''next'', VNone),
                                        (''previous'', VNone), (''results'', VList [])]\<rparr>
    | Inr pg \<Rightarrow>
        resp = \<lparr>status = 200,
                body = VDict
                  [(''count'', VInt (int ?n)),
                   (''next'',
                    if has_next_of (pagination_class v) pg
                    then VStr (page_link (uri req) (next_page_number_of (pagination_class v) pg))
                    else VNone),
                   (''previous'', VNone),
                   (''results'', VList (object_list pg))]\<rparr>"
    by (auto simp: paginated_response_def split: sum.splits)
  have spec': "resp = \<lparr>status = 200,
                        body = VDict
                          [(''count'', VInt (int ?n)),
                           (''next'', if ps < int ?n then VStr (page_link (uri req) 2) else VNone),
                           (''previous'', VNone),
                           (''results'', VList ?rows)]\<rparr>"
    if "pagination_class v = spec_paginator" and "page_size self = VInt ps" and "0 < ps" for ps
    using spec [OF that] by (simp add: paginated_response_def)
  from any' spec' show ?thesis
    unfolding Let_def by blast
qed

theorem list_navigation_is_that_of_page_one_witness:
  "prepare open_view
     \<lparr>uri = ''/r?page=3&page_size=2'',
      query_arguments = [(''page'', [Utf8 ''3'']), (''page_size'', [Utf8 ''2''])]\<rparr> =
     ([HasPermission 0, Authenticate],
      Continue \<lparr>query_filter = [], page = VInt 3, page_size = VInt 2,
                model_manager = \<lparr>skip = VInt 3, limit = VInt 2\<rparr>\<rparr>) \<and>
   view_list link_to open_view example_mongo (numbered_docs 5)
     \<lparr>uri = ''/r?page=3&page_size=2'',
      query_arguments = [(''page'', [Utf8 ''3'']), (''page_size'', [Utf8 ''2''])]\<rparr>
     \<lparr>query_filter = [], page = VInt 3, page_size = VInt 2,
      model_manager = \<lparr>skip = VInt 3, limit = VInt 2\<rparr>\<rparr> =
     Inr \<lparr>status = 200,
          body = VDict
            [(''count'', VInt 5),
             (''next'', VStr ''/r?page=2&page_size=2''),
             (''previous'', VNone),
             (''results'', VList
                [VDict [(''_id'', VDict [(''$oid'', VStr ''000000000000000000000001'')])],
                 VDict [(''_id'', VDict [(''$oid'', VStr ''000000000000000000000000'')])]])]\<rparr>"
proof -
  let ?req = "\<lparr>uri = ''/r?page=3&page_size=2'',
      query_arguments = [(''page'', [Utf8 ''3'']), (''page_size'', [Utf8 ''2''])]\<rparr>"
  let ?self = "\<lparr>query_filter = [], page = VInt 3, page_size = VInt 2,
      model_manager = \<lparr>skip = VInt 3, limit = VInt 2\<rparr>\<rparr>"
  let ?resp = "projr (view_list link_to open_view example_mongo (numbered_docs 5) ?req ?self)"
  have prep: "prepare open_view ?req = ([HasPermission 0, Authenticate], Continue ?self)"
    by code_simp
  have ran: "view_list link_to open_view example_mongo (numbered_docs 5) ?req ?self = Inr ?resp"
    by code_simp
  have pc: "pagination_class open_view = spec_paginator"
    by (simp add: open_view_def)
  have n: "count_documents example_mongo (numbered_docs 5) (issued_filter []) = 5"
    by code_simp
  have rows: "rows_after_skip open_view example_mongo (numbered_docs 5) (issued_filter [])
        (documents_skipped (VInt 3)) (documents_limit (VInt 2)) =
      [VDict [(''_id'', VDict [(''$oid'', VStr ''000000000000000000000001'')])],
       VDict [(''_id'', VDict [(''$oid'', VStr ''000000000000000000000000'')])]]"
    by code_simp
  have link: "link_to ''/r?page=3&page_size=2'' 2 = ''/r?page=2&page_size=2''"
    by code_simp
  from list_navigation_is_that_of_page_one [OF prep ran]
  have "?resp = \<lparr>status = 200,
          body = VDict
            [(''count'', VInt 5),
             (''next'', VStr ''/r?page=2&page_size=2''),
             (''previous'', VNone),
             (''results'', VList
                [VDict [(''_id'', VDict [(''$oid'', VStr ''000000000000000000000001'')])],
                 VDict [(''_id'', VDict [(''$oid'', VStr ''000000000000000000000000'')])]])]\<rparr>"
    by (simp add: pc n rows link Let_def)
  with prep ran show ?thesis by simp
qed

end
